theory Spec2Isabelle
  imports Main "HOL-Library.AList"
begin

section \<open>JSON values and JavaScript property access\<close>

text \<open>
  The setup script keeps the host configuration as the value that \<^verbatim>\<open>JSON.parse\<close>
  returned and edits it through property reads, writes and \<^verbatim>\<open>delete\<close>. An object is an
  association list in property order. A number is only ever tested for zero (truthiness)
  and copied, so its payload is an integer. The engine's rule that integer-like property
  names enumerate before the others is not modelled: every statement below is about
  property values, not about their order.
\<close>

datatype json =
    JNull
  | JBool bool
  | JNum int
  | JStr string
  | JArr "json list"
  | JObj "(string \<times> json) list"

text \<open>JavaScript truthiness; \<open>None\<close> stands for \<^verbatim>\<open>undefined\<close>.\<close>

fun truthy :: "json option \<Rightarrow> bool" where
  "truthy None = False"
| "truthy (Some JNull) = False"
| "truthy (Some (JBool b)) = b"
| "truthy (Some (JNum n)) = (n \<noteq> 0)"
| "truthy (Some (JStr s)) = (s \<noteq> [])"
| "truthy (Some (JArr xs)) = True"
| "truthy (Some (JObj kvs)) = True"

text \<open>An exception is an \<^verbatim>\<open>Error\<close> object: its \<^verbatim>\<open>name\<close> and its \<^verbatim>\<open>message\<close>.\<close>

datatype jserror = JsError (ename: string) (emessage: string)

definition TypeError :: "string \<Rightarrow> jserror" where
  "TypeError m = JsError ''TypeError'' m"

definition Error :: "string \<Rightarrow> jserror" where
  "Error m = JsError ''Error'' m"

text \<open>\<^verbatim>\<open>String(error)\<close> and \<^verbatim>\<open>`${error}`\<close>: \<^verbatim>\<open>Error.prototype.toString\<close>.\<close>

definition error_string :: "jserror \<Rightarrow> string" where
  "error_string e =
     (if ename e = [] then emessage e
      else if emessage e = [] then ename e
      else ename e @ '': '' @ emessage e)"

text \<open>\<^verbatim>\<open>error.message || String(error)\<close>, as the step tracker stores an error.\<close>

definition message_or_string :: "jserror \<Rightarrow> string" where
  "message_or_string e = (if emessage e \<noteq> [] then emessage e else error_string e)"

text \<open>
  Property access, for the property names the script uses (\<^verbatim>\<open>mcpServers\<close>,
  \<^verbatim>\<open>desktopCommander\<close>, \<^verbatim>\<open>desktop-commander\<close>, \<^verbatim>\<open>allowedDirectories\<close>): none of them is an
  array index, \<^verbatim>\<open>length\<close>, or a property of a built-in prototype. Reading a property of
  \<^verbatim>\<open>null\<close> throws; reading one of any other primitive or of an array gives
  \<^verbatim>\<open>undefined\<close>. The script is an ES module, hence strict: creating a property on a
  primitive throws. A named property set on an array is not serialised by
  \<^verbatim>\<open>JSON.stringify\<close> and the script reads it back only through the value it has just
  assigned, so the array stays as it is.
\<close>

fun get_prop :: "json \<Rightarrow> string \<Rightarrow> jserror + json option" where
  "get_prop JNull k = Inl (TypeError (''Cannot read properties of null (reading '' @ k @ '')''))"
| "get_prop (JObj kvs) k = Inr (map_of kvs k)"
| "get_prop v k = Inr None"

fun set_prop :: "json \<Rightarrow> string \<Rightarrow> json \<Rightarrow> jserror + json" where
  "set_prop (JObj kvs) k v = Inr (JObj (AList.update k v kvs))"
| "set_prop (JArr xs) k v = Inr (JArr xs)"
| "set_prop JNull k v = Inl (TypeError (''Cannot set properties of null (setting '' @ k @ '')''))"
| "set_prop w k v = Inl (TypeError (''Cannot create property '' @ k))"

fun delete_prop :: "json \<Rightarrow> string \<Rightarrow> json" where
  "delete_prop (JObj kvs) k = JObj (AList.delete k kvs)"
| "delete_prop v k = v"

text \<open>The entries of an object; any other value has none.\<close>

fun entries :: "json \<Rightarrow> (string \<times> json) list" where
  "entries (JObj kvs) = kvs"
| "entries v = []"

definition member :: "json \<Rightarrow> string \<Rightarrow> json option" where
  "member v k = map_of (entries v) k"

section \<open>The merge of the server entry\<close>

text \<open>
  Lines 494 to 506 of the script, on the in-memory \<^verbatim>\<open>config\<close>:
  \<^verbatim>\<open>
  if (!config.mcpServers) { config.mcpServers = {}; }
  if (config.mcpServers.desktopCommander) { delete config.mcpServers.desktopCommander; }
  config.mcpServers["desktop-commander"] = serverConfig;
  \<close>
  The nested object is mutated in place in the source; here it is read, changed and
  stored back under \<^verbatim>\<open>mcpServers\<close>. The Boolean says whether the legacy entry was
  removed (the script logs it).
\<close>

definition legacy_name :: string where
  "legacy_name = ''desktopCommander''"

definition server_name :: string where
  "server_name = ''desktop-commander''"

definition merge_flag :: "json \<Rightarrow> json \<Rightarrow> jserror + (json \<times> bool)" where
  "merge_flag config serverConfig =
     (case get_prop config ''mcpServers'' of
        Inl e \<Rightarrow> Inl e
      | Inr m0 \<Rightarrow>
          (case (if \<not> truthy m0 then
                   (case set_prop config ''mcpServers'' (JObj []) of
                      Inl e \<Rightarrow> Inl e
                    | Inr c \<Rightarrow> Inr (c, JObj []))
                 else Inr (config, the m0)) of
             Inl e \<Rightarrow> Inl e
           | Inr (config1, m1) \<Rightarrow>
               (case get_prop m1 legacy_name of
                  Inl e \<Rightarrow> Inl e
                | Inr legacy \<Rightarrow>
                    (let removed = truthy legacy;
                         m2 = (if removed then delete_prop m1 legacy_name else m1)
                     in case set_prop m2 server_name serverConfig of
                          Inl e \<Rightarrow> Inl e
                        | Inr m3 \<Rightarrow>
                            (case set_prop config1 ''mcpServers'' m3 of
                               Inl e \<Rightarrow> Inl e
                             | Inr config2 \<Rightarrow> Inr (config2, removed))))))"

definition merge :: "json \<Rightarrow> json \<Rightarrow> jserror + json" where
  "merge config serverConfig = map_sum id fst (merge_flag config serverConfig)"

section \<open>The environment and the world\<close>

text \<open>
  A path is the list of its segments: \<^verbatim>\<open>join\<close> appends segments, \<^verbatim>\<open>dirname\<close> drops the
  last one. Every call of \<^verbatim>\<open>join\<close> in the script extends a base directory by literal
  segments, none of them \<^verbatim>\<open>.\<close> or \<^verbatim>\<open>..\<close>, so normalisation never changes the result.
\<close>

type_synonym path = "string list"

text \<open>
  What the script reads from its process and runtime. \<open>parse\<close> is \<^verbatim>\<open>JSON.parse\<close>
  (\<open>Inl m\<close>: a SyntaxError with message \<open>m\<close>) and \<open>stringify\<close> is
  \<^verbatim>\<open>JSON.stringify(value, null, 2)\<close>; both are built-ins of the runtime and stay
  parameters. The clock does not advance during a run. \<open>banner\<close> holds the lines of
  block-character art that \<open>setup\<close> prints first.
\<close>

record env =
  platform :: string
  homedir :: path
  appdata :: "path option"
  module_dir :: path
  module_url :: string
  argv :: "string list"
  parse :: "string \<Rightarrow> string + json"
  stringify :: "json \<Rightarrow> string"
  iso_now :: string
  ms_now :: int
  ms_start :: int
  banner :: "string list"

definition isWindows :: "env \<Rightarrow> bool" where
  "isWindows e = (platform e = ''win32'')"

definition backslash :: char where
  "backslash = CHR 0x5C"

definition dquote :: char where
  "dquote = CHR 0x22"

definition squote :: char where
  "squote = CHR 0x27"

definition newline :: char where
  "newline = CHR 0x0A"

fun intercalate :: "string \<Rightarrow> string list \<Rightarrow> string" where
  "intercalate sep [] = []"
| "intercalate sep [x] = x"
| "intercalate sep (x # y # ys) = x @ sep @ intercalate sep (y # ys)"

text \<open>The text of a path: backslash-separated on Windows, absolute and slash-separated elsewhere.\<close>

definition path_text :: "env \<Rightarrow> path \<Rightarrow> string" where
  "path_text e p =
     (if isWindows e then intercalate [backslash] p
      else concat (map (\<lambda>seg. CHR ''/'' # seg) p))"

text \<open>Lines 221 to 238: the host config path, fixed when the module loads.\<close>

definition claudeConfigPath :: "env \<Rightarrow> jserror + path" where
  "claudeConfigPath e =
     (if platform e = ''win32'' then
        (case appdata e of
           None \<Rightarrow> Inl (TypeError ''The path argument must be of type string. Received undefined'')
         | Some a \<Rightarrow> Inr (a @ [''Claude'', ''claude_desktop_config.json'']))
      else if platform e = ''darwin'' then
        Inr (homedir e @ [''Library'', ''Application Support'', ''Claude'', ''claude_desktop_config.json''])
      else if platform e = ''linux'' then
        Inr (homedir e @ [''.config'', ''Claude'', ''claude_desktop_config.json''])
      else Inr (homedir e @ [''.claude_desktop_config.json'']))"

text \<open>
  File system and child processes. Each call that can fail takes its outcome from a
  plan the environment fixes: one queue of outcomes per operation and argument, an
  empty queue meaning success. \<open>FailAfter k m\<close> is a write that fails with message
  \<open>m\<close> after \<open>k\<close> bytes have reached the file; \<^verbatim>\<open>writeFileSync\<close> opens its file
  with flag \<^verbatim>\<open>w\<close>, which truncates it.
\<close>

datatype outcome = Ok | Fail string | FailAfter nat string

datatype syscall =
    Mkdir path
  | ReadFile path
  | WriteFile path
  | AppendFile path
  | Exec string

datatype stream = Out | Err

record setup_step =
  step :: string
  status :: string
  timestamp :: int
  timeFromStart :: int
  error :: "string option"
  completionTime :: "int option"

record state =
  files :: "path \<Rightarrow> string option"
  dirs :: "path set"
  setupSteps :: "setup_step list"
  console :: "(stream \<times> string) list"
  plan :: "syscall \<Rightarrow> outcome list"

type_synonym 'a io = "state \<Rightarrow> (jserror + 'a) \<times> state"

definition io_return :: "'a \<Rightarrow> 'a io" where
  "io_return x = (\<lambda>s. (Inr x, s))"

definition io_throw :: "jserror \<Rightarrow> 'a io" where
  "io_throw err = (\<lambda>s. (Inl err, s))"

definition io_bind :: "'a io \<Rightarrow> ('a \<Rightarrow> 'b io) \<Rightarrow> 'b io" where
  "io_bind m f = (\<lambda>s. case m s of (Inl err, s') \<Rightarrow> (Inl err, s') | (Inr x, s') \<Rightarrow> f x s')"

text \<open>\<^verbatim>\<open>try { m } catch (err) { h err }\<close>: the effects of \<open>m\<close> up to the throw stay.\<close>

definition io_catch :: "'a io \<Rightarrow> (jserror \<Rightarrow> 'a io) \<Rightarrow> 'a io" where
  "io_catch m h = (\<lambda>s. case m s of (Inl err, s') \<Rightarrow> h err s' | (Inr x, s') \<Rightarrow> (Inr x, s'))"

text \<open>A statement that cannot throw.\<close>

definition io_do :: "(state \<Rightarrow> state) \<Rightarrow> unit io" where
  "io_do f = (\<lambda>s. (Inr (), f s))"

definition io_of :: "jserror + 'a \<Rightarrow> 'a io" where
  "io_of r = (\<lambda>s. (r, s))"

definition next_outcome :: "syscall \<Rightarrow> state \<Rightarrow> outcome \<times> state" where
  "next_outcome c s =
     (case plan s c of
        [] \<Rightarrow> (Ok, s)
      | x # xs \<Rightarrow> (x, s\<lparr>plan := (plan s)(c := xs)\<rparr>))"

definition existsSync :: "path \<Rightarrow> state \<Rightarrow> bool" where
  "existsSync p s = (files s p \<noteq> None \<or> p \<in> dirs s)"

text \<open>\<^verbatim>\<open>mkdirSync(p, { recursive: true })\<close> creates the directory and its ancestors.\<close>

definition mkdirSync :: "path \<Rightarrow> unit io" where
  "mkdirSync p = (\<lambda>s.
     case next_outcome (Mkdir p) s of
       (Ok, s') \<Rightarrow> (Inr (), s'\<lparr>dirs := dirs s' \<union> set (map (\<lambda>n. take n p) [0..<Suc (length p)])\<rparr>)
     | (Fail m, s') \<Rightarrow> (Inl (Error m), s')
     | (FailAfter k m, s') \<Rightarrow> (Inl (Error m), s'))"

definition readFileSync :: "path \<Rightarrow> string io" where
  "readFileSync p = (\<lambda>s.
     case files s p of
       None \<Rightarrow> (Inl (Error ''EISDIR: illegal operation on a directory, read''), s)
     | Some txt \<Rightarrow>
         (case next_outcome (ReadFile p) s of
            (Ok, s') \<Rightarrow> (Inr txt, s')
          | (Fail m, s') \<Rightarrow> (Inl (Error m), s')
          | (FailAfter k m, s') \<Rightarrow> (Inl (Error m), s')))"

definition writeFileSync :: "path \<Rightarrow> string \<Rightarrow> unit io" where
  "writeFileSync p txt = (\<lambda>s.
     case next_outcome (WriteFile p) s of
       (Ok, s') \<Rightarrow> (Inr (), s'\<lparr>files := (files s')(p \<mapsto> txt)\<rparr>)
     | (Fail m, s') \<Rightarrow> (Inl (Error m), s')
     | (FailAfter k m, s') \<Rightarrow> (Inl (Error m), s'\<lparr>files := (files s')(p \<mapsto> take k txt)\<rparr>))"

definition appendFileSync :: "path \<Rightarrow> string \<Rightarrow> unit io" where
  "appendFileSync p txt = (\<lambda>s.
     let old = (case files s p of None \<Rightarrow> [] | Some t \<Rightarrow> t) in
     case next_outcome (AppendFile p) s of
       (Ok, s') \<Rightarrow> (Inr (), s'\<lparr>files := (files s')(p \<mapsto> old @ txt)\<rparr>)
     | (Fail m, s') \<Rightarrow> (Inl (Error m), s')
     | (FailAfter k m, s') \<Rightarrow> (Inl (Error m), s'\<lparr>files := (files s')(p \<mapsto> old @ take k txt)\<rparr>))"

definition console_log :: "string \<Rightarrow> state \<Rightarrow> state" where
  "console_log m s = s\<lparr>console := console s @ [(Out, m)]\<rparr>"

definition console_error :: "string \<Rightarrow> state \<Rightarrow> state" where
  "console_error m s = s\<lparr>console := console s @ [(Err, m)]\<rparr>"

section \<open>Step tracker and diagnostic log\<close>

text \<open>Lines 162 to 184. \<open>addSetupStep\<close> returns the index of the step it appends.\<close>

definition addSetupStep :: "env \<Rightarrow> string \<Rightarrow> string \<Rightarrow> jserror option \<Rightarrow> state \<Rightarrow> nat \<times> state" where
  "addSetupStep e nm st err s =
     (length (setupSteps s),
      s\<lparr>setupSteps := setupSteps s @
           [\<lparr>step = nm, status = st, timestamp = ms_now e,
             timeFromStart = ms_now e - ms_start e,
             error = map_option message_or_string err,
             completionTime = None\<rparr>]\<rparr>)"

definition updateSetupStep :: "env \<Rightarrow> nat \<Rightarrow> string \<Rightarrow> jserror option \<Rightarrow> state \<Rightarrow> state" where
  "updateSetupStep e i st err s =
     (if i < length (setupSteps s) then
        s\<lparr>setupSteps := (setupSteps s)
             [i := (setupSteps s ! i)
                \<lparr>status := st,
                 timeFromStart := ms_now e - ms_start e,
                 error := (case err of
                             None \<Rightarrow> error (setupSteps s ! i)
                           | Some x \<Rightarrow> Some (message_or_string x)),
                 completionTime := Some (ms_now e)\<rparr>]\<rparr>
      else s)"

definition toolDir :: "env \<Rightarrow> path" where
  "toolDir e = homedir e @ [''.claude-server-commander'']"

definition logFile :: "env \<Rightarrow> path" where
  "logFile e = toolDir e @ [''setup.log'']"

definition logMessage :: "env \<Rightarrow> string \<Rightarrow> bool \<Rightarrow> string" where
  "logMessage e message isError =
     ''['' @ iso_now e @ ''] '' @ (if isError then ''ERROR: '' else []) @ message @ [newline]"

text \<open>
  Lines 187 to 213. Whatever the body throws is caught; the handler only prints, so
  \<open>logToFile\<close> never throws. The second argument of the handler's
  \<^verbatim>\<open>console.error\<close> is printed as the error's string form.
\<close>

definition logToFile :: "env \<Rightarrow> string \<Rightarrow> bool \<Rightarrow> state \<Rightarrow> state" where
  "logToFile e message isError s =
     (case io_bind (if \<not> existsSync (toolDir e) s then mkdirSync (toolDir e) else io_return ())
             (\<lambda>_. io_bind (appendFileSync (logFile e) (logMessage e message isError))
             (\<lambda>_. io_do (if isError then console_error message else console_log message))) s of
        (Inr _, s') \<Rightarrow> s'
      | (Inl err, s') \<Rightarrow>
          (let s1 = console_log message s' in
           if isError then console_error (''Error writing to log: '' @ error_string err) s1 else s1))"

definition io_test :: "(state \<Rightarrow> bool) \<Rightarrow> bool io" where
  "io_test P = (\<lambda>s. (Inr (P s), s))"

definition io_step :: "env \<Rightarrow> string \<Rightarrow> nat io" where
  "io_step e nm = (\<lambda>s. case addSetupStep e nm ''started'' None s of (i, s') \<Rightarrow> (Inr i, s'))"

definition json_parse :: "env \<Rightarrow> string \<Rightarrow> json io" where
  "json_parse e txt =
     io_of (case parse e txt of Inl m \<Rightarrow> Inl (JsError ''SyntaxError'' m) | Inr v \<Rightarrow> Inr v)"

section \<open>The tool's own configuration file\<close>

text \<open>Decimal text of an array index, for the property names of arrays and strings.\<close>

function dec :: "nat \<Rightarrow> string" where
  "dec n = (if n < 10 then [char_of (48 + n)] else dec (n div 10) @ [char_of (48 + n mod 10)])"
  by pat_completeness auto
termination
  by (relation "measure id") auto

text \<open>
  The own enumerable properties that object spread copies, each once: those of an
  object, the elements of an array, the characters of a string; nothing for
  \<^verbatim>\<open>null\<close>, a number or a Boolean.
\<close>

fun spread_entries :: "json \<Rightarrow> (string \<times> json) list" where
  "spread_entries (JObj kvs) = AList.clearjunk kvs"
| "spread_entries (JArr xs) = zip (map dec [0..<length xs]) xs"
| "spread_entries (JStr s) = zip (map dec [0..<length s]) (map (\<lambda>c. JStr [c]) s)"
| "spread_entries v = []"

text \<open>\<^verbatim>\<open>{ ...config, ...existingConfig }\<close>\<close>

definition spread :: "(string \<times> json) list \<Rightarrow> json \<Rightarrow> (string \<times> json) list" where
  "spread base v = fold (\<lambda>(k, x). AList.update k x) (spread_entries v) base"

definition toolConfigFile :: "env \<Rightarrow> path" where
  "toolConfigFile e = toolDir e @ [''config.json'']"

definition defaultToolConfig :: "env \<Rightarrow> (string \<times> json) list" where
  "defaultToolConfig e =
     [(''blockedCommands'',
         JArr (map JStr [''format'', ''mount'', ''umount'', ''mkfs'', ''fdisk'', ''dd'', ''sudo'', ''su'',
                         ''passwd'', ''adduser'', ''useradd'', ''usermod'', ''groupadd''])),
      (''defaultShell'', JStr (if platform e = ''win32'' then ''powershell.exe'' else ''bash'')),
      (''allowedDirectories'', JArr [])]"

text \<open>Lines 24 to 28: the only statement of the function outside every \<^verbatim>\<open>try\<close>.\<close>

definition ensure_tool_dir :: "env \<Rightarrow> unit io" where
  "ensure_tool_dir e =
     io_bind (io_test (existsSync (toolDir e))) (\<lambda>dirExists.
     if \<not> dirExists then
       io_bind (mkdirSync (toolDir e)) (\<lambda>_.
       io_do (logToFile e (''Created config directory: '' @ path_text e (toolDir e)) False))
     else io_return ())"

text \<open>Lines 30 to 49: the defaults, overridden by what an existing file holds.\<close>

definition load_tool_config :: "env \<Rightarrow> (string \<times> json) list io" where
  "load_tool_config e =
     io_bind (io_test (existsSync (toolConfigFile e))) (\<lambda>fileExists.
     if fileExists then
       io_catch
         (io_bind (readFileSync (toolConfigFile e)) (\<lambda>txt.
          io_bind (json_parse e txt) (\<lambda>existingConfig.
          io_bind (io_do (logToFile e ''Loaded existing configuration'' False)) (\<lambda>_.
          io_return (spread (defaultToolConfig e) existingConfig)))))
         (\<lambda>err.
          io_bind (io_do (logToFile e (''Error reading existing config: '' @ error_string err) True)) (\<lambda>_.
          io_return (defaultToolConfig e)))
     else io_return (defaultToolConfig e))"

text \<open>Lines 57 to 65: a failed write is logged and swallowed.\<close>

definition save_tool_config :: "env \<Rightarrow> (string \<times> json) list \<Rightarrow> unit io" where
  "save_tool_config e config =
     io_catch
       (io_bind (writeFileSync (toolConfigFile e) (stringify e (JObj config))) (\<lambda>_.
        io_bind (io_do (logToFile e ''Saved configuration file'' False)) (\<lambda>_.
        io_do (console_log (''Configuration saved to: '' @ path_text e (toolConfigFile e))))))
       (\<lambda>err.
        io_bind (io_do (logToFile e (''Error saving config: '' @ error_string err) True)) (\<lambda>_.
        io_do (console_error (''Error saving configuration: '' @ error_string err))))"

text \<open>Lines 20 to 68.\<close>

definition configureFilesystemAccess :: "env \<Rightarrow> json io" where
  "configureFilesystemAccess e =
     io_bind (ensure_tool_dir e) (\<lambda>_.
     io_bind (load_tool_config e) (\<lambda>config0.
     let config = AList.update ''allowedDirectories'' (JArr [JStr (path_text e (homedir e))]) config0 in
     io_bind (io_do (console_log
                (newline # ''=== Claude Desktop Commander Filesystem Access Configuration ===''))) (\<lambda>_.
     io_bind (io_do (logToFile e ''Configured to restrict access to home directory only'' False)) (\<lambda>_.
     io_bind (io_do (console_log
                (newline # ''Access restricted to home directory: '' @ path_text e (homedir e)))) (\<lambda>_.
     io_bind (save_tool_config e config) (\<lambda>_.
     io_return (JObj config)))))))"

section \<open>Restarting the host application\<close>

text \<open>
  Lines 240 to 258. The promise resolves or rejects with what \<^verbatim>\<open>exec\<close> reports; a
  timeout (10 seconds) is a rejection like any other. No caller uses the captured output.
\<close>

definition actualCommand :: "env \<Rightarrow> string \<Rightarrow> string" where
  "actualCommand e command = (if isWindows e then ''cmd.exe /c '' @ command else command)"

definition execAsync :: "env \<Rightarrow> string \<Rightarrow> unit io" where
  "execAsync e command = (\<lambda>s.
     case addSetupStep e (''exec_'' @ take 20 command @ ''...'') ''started'' None s of
       (execStep, s1) \<Rightarrow>
         (case next_outcome (Exec (actualCommand e command)) s1 of
            (Ok, s2) \<Rightarrow> (Inr (), updateSetupStep e execStep ''completed'' None s2)
          | (Fail m, s2) \<Rightarrow> (Inl (Error m), updateSetupStep e execStep ''failed'' (Some (Error m)) s2)
          | (FailAfter k m, s2) \<Rightarrow> (Inl (Error m), updateSetupStep e execStep ''failed'' (Some (Error m)) s2)))"

definition kill_command :: "env \<Rightarrow> string option" where
  "kill_command e =
     (if platform e = ''win32'' then Some (''taskkill /F /IM '' @ [dquote] @ ''Claude.exe'' @ [dquote])
      else if platform e = ''darwin'' then Some (''killall '' @ [dquote] @ ''Claude'' @ [dquote])
      else if platform e = ''linux'' then Some (''pkill -f '' @ [dquote] @ ''claude'' @ [dquote])
      else None)"

text \<open>Lines 266 to 292: the inner \<^verbatim>\<open>try\<close> around the kill command.\<close>

definition kill_claude_process :: "env \<Rightarrow> unit io" where
  "kill_claude_process e =
     io_bind (io_step e ''kill_claude_process'') (\<lambda>killStep.
     io_catch
       (io_bind (case kill_command e of None \<Rightarrow> io_return () | Some c \<Rightarrow> execAsync e c) (\<lambda>_.
        io_bind (io_do (updateSetupStep e killStep ''completed'' None)) (\<lambda>_.
        io_do (logToFile e ''Successfully killed Claude process'' False))))
       (\<lambda>killError.
        io_bind (io_do (updateSetupStep e killStep ''no_process_found'' (Some killError))) (\<lambda>_.
        io_do (logToFile e ''Claude process not found or already terminated'' False))))"

text \<open>Lines 297 to 318: the inner \<^verbatim>\<open>try\<close> around the relaunch, which rethrows.\<close>

definition start_claude_process :: "env \<Rightarrow> nat \<Rightarrow> unit io" where
  "start_claude_process e restartStep =
     io_bind (io_step e ''start_claude_process'') (\<lambda>startStep.
     io_catch
       (io_bind
          (if platform e = ''win32'' then
             io_bind (io_do (logToFile e ''Windows: Claude restart skipped - requires manual restart'' False)) (\<lambda>_.
             io_do (updateSetupStep e startStep ''skipped'' None))
           else if platform e = ''darwin'' then
             io_bind (execAsync e (''open -a '' @ [dquote] @ ''Claude'' @ [dquote])) (\<lambda>_.
             io_bind (io_do (updateSetupStep e startStep ''completed'' None)) (\<lambda>_.
             io_do (logToFile e ''Claude has been restarted.'' False)))
           else if platform e = ''linux'' then
             io_bind (execAsync e ''claude'') (\<lambda>_.
             io_bind (io_do (logToFile e ''Claude has been restarted.'' False)) (\<lambda>_.
             io_do (updateSetupStep e startStep ''completed'' None)))
           else io_return ()) (\<lambda>_.
        io_do (updateSetupStep e restartStep ''completed'' None)))
       (\<lambda>startError.
        io_bind (io_do (updateSetupStep e startStep ''failed'' (Some startError))) (\<lambda>_.
        io_throw startError)))"

text \<open>Lines 260 to 324. The settle delay of three seconds has no effect on the state.\<close>

definition restartClaude :: "env \<Rightarrow> unit io" where
  "restartClaude e =
     io_bind (io_step e ''restart_claude'') (\<lambda>restartStep.
     io_catch
       (io_bind (io_do (logToFile e (''Attempting to restart Claude on '' @ platform e) False)) (\<lambda>_.
        io_bind (kill_claude_process e) (\<lambda>_.
        start_claude_process e restartStep)))
       (\<lambda>err.
        io_bind (io_do (updateSetupStep e restartStep ''failed'' (Some err))) (\<lambda>_.
        io_bind (io_do (logToFile e
                   (''Failed to restart Claude: '' @ error_string err @ ''. Please restart it manually.'') True)) (\<lambda>_.
        io_do (logToFile e
                 ''If Claude Desktop is not installed use this link to download https://claude.ai/download''
                 True)))))"

section \<open>The setup run\<close>

text \<open>
  \<open>setup\<close> (lines 328 to 539) is one \<^verbatim>\<open>try\<close> block; its phases are named here after
  the steps they record. \<open>cp\<close> is the module's \<^verbatim>\<open>claudeConfigPath\<close>.
\<close>

text \<open>Lines 353 to 366.\<close>

definition check_config_directory :: "env \<Rightarrow> path \<Rightarrow> unit io" where
  "check_config_directory e cp =
     io_bind (io_step e ''check_config_directory'') (\<lambda>configDirStep.
     io_catch
       (io_bind (io_test (existsSync (butlast cp))) (\<lambda>dirExists.
        io_bind (if \<not> dirExists then
                   io_bind (io_do (logToFile e (''Creating config directory: '' @ path_text e (butlast cp)) False)) (\<lambda>_.
                   mkdirSync (butlast cp))
                 else io_return ()) (\<lambda>_.
        io_do (updateSetupStep e configDirStep ''completed'' None))))
       (\<lambda>dirError.
        io_bind (io_do (updateSetupStep e configDirStep ''failed'' (Some dirError))) (\<lambda>_.
        io_throw (Error (''Failed to create config directory: '' @ emessage dirError)))))"

definition defaultConfig :: "env \<Rightarrow> json" where
  "defaultConfig e =
     JObj [(''serverConfig'',
            (if isWindows e
             then JObj [(''command'', JStr ''cmd.exe''), (''args'', JArr [JStr ''/c''])]
             else JObj [(''command'', JStr ''/bin/sh''), (''args'', JArr [JStr ''-c''])]))]"

text \<open>Lines 373 to 397: no file exists, and the default is written to disk at once.\<close>

definition create_default_config :: "env \<Rightarrow> path \<Rightarrow> nat \<Rightarrow> json io" where
  "create_default_config e cp configFileStep =
     io_bind (io_do (logToFile e (''Claude config file not found at: '' @ path_text e cp) False)) (\<lambda>_.
     io_bind (io_do (logToFile e ''Creating default config file...'' False)) (\<lambda>_.
     io_catch
       (io_bind (writeFileSync cp (stringify e (defaultConfig e))) (\<lambda>_.
        io_bind (io_do (logToFile e ''Default config file created.'' False)) (\<lambda>_.
        io_bind (io_do (updateSetupStep e configFileStep ''created'' None)) (\<lambda>_.
        io_return (defaultConfig e)))))
       (\<lambda>writeError.
        io_bind (io_do (updateSetupStep e configFileStep ''create_failed'' (Some writeError))) (\<lambda>_.
        io_throw (Error (''Failed to create config file: '' @ emessage writeError))))))"

text \<open>Lines 399 to 410: the file exists and is read and parsed.\<close>

definition read_existing_config :: "env \<Rightarrow> path \<Rightarrow> nat \<Rightarrow> json io" where
  "read_existing_config e cp configFileStep =
     io_bind (io_step e ''read_config_file'') (\<lambda>readConfigStep.
     io_catch
       (io_bind (readFileSync cp) (\<lambda>configData.
        io_bind (json_parse e configData) (\<lambda>config.
        io_bind (io_do (updateSetupStep e readConfigStep ''completed'' None)) (\<lambda>_.
        io_bind (io_do (updateSetupStep e configFileStep ''exists'' None)) (\<lambda>_.
        io_bind (io_do (logToFile e ''Existing config file found and read successfully'' False)) (\<lambda>_.
        io_return config))))))
       (\<lambda>readError.
        io_bind (io_do (updateSetupStep e readConfigStep ''failed'' (Some readError))) (\<lambda>_.
        io_throw (Error (''Failed to read config file: '' @ emessage readError)))))"

text \<open>Lines 368 to 411.\<close>

definition check_config_file :: "env \<Rightarrow> path \<Rightarrow> json io" where
  "check_config_file e cp =
     io_bind (io_step e ''check_config_file'') (\<lambda>configFileStep.
     io_bind (io_test (existsSync cp)) (\<lambda>fileExists.
     if \<not> fileExists then create_default_config e cp configFileStep
     else read_existing_config e cp configFileStep))"

text \<open>\<^verbatim>\<open>String.prototype.includes\<close> and \<^verbatim>\<open>.replace(/\\/g, '\\\\')\<close>.\<close>

fun str_includes :: "string \<Rightarrow> string \<Rightarrow> bool" where
  "str_includes [] sub = (sub = [])"
| "str_includes (c # cs) sub = (take (length sub) (c # cs) = sub \<or> str_includes cs sub)"

definition double_backslashes :: "string \<Rightarrow> string" where
  "double_backslashes s = concat (map (\<lambda>c. if c = backslash then [backslash, backslash] else [c]) s)"

definition isDebugMode :: "env \<Rightarrow> bool" where
  "isDebugMode e = (''--debug'' \<in> set (argv e))"

definition isNpx :: "env \<Rightarrow> bool" where
  "isNpx e = str_includes (module_url e) ''node_modules''"

definition debugEnv :: json where
  "debugEnv = JObj [(''NODE_OPTIONS'', JStr ''--trace-warnings --trace-exit''), (''DEBUG'', JStr ''*'')]"

definition indexPath :: "env \<Rightarrow> string" where
  "indexPath e = path_text e (module_dir e @ [''dist'', ''index.js''])"

text \<open>Lines 423 to 484: the server launch entry, by debug mode and run method.\<close>

definition serverConfig :: "env \<Rightarrow> bool \<Rightarrow> json" where
  "serverConfig e debugMode =
     (if debugMode then
        (if isNpx e then
           JObj [(''command'', JStr (if isWindows e then ''node.exe'' else ''node'')),
                 (''args'', JArr [JStr ''--inspect-brk=9229'',
                                  JStr (if isWindows e
                                        then double_backslashes
                                               (path_text e ((case appdata e of None \<Rightarrow> [] | Some a \<Rightarrow> a)
                                                             @ [''npm'', ''npx.cmd'']))
                                        else ''$(which npx)''),
                                  JStr ''@wonderwhy-er/desktop-commander@latest'']),
                 (''env'', debugEnv)]
         else
           JObj [(''command'', JStr (if isWindows e then ''node.exe'' else ''node'')),
                 (''args'', JArr [JStr ''--inspect-brk=9229'', JStr (indexPath e)]),
                 (''env'', debugEnv)])
      else
        (if isNpx e then
           JObj [(''command'', JStr (if isWindows e then ''npx.cmd'' else ''npx'')),
                 (''args'', JArr [JStr ''@wonderwhy-er/desktop-commander@latest''])]
         else
           JObj [(''command'', JStr ''node''),
                 (''args'', JArr [JStr (indexPath e)])]))"

text \<open>
  Lines 413 to 489. Nothing inside the \<^verbatim>\<open>try\<close> can throw, so its handler is left
  out: the phase logs, builds the entry and marks its step.
\<close>

definition prepare_server_config :: "env \<Rightarrow> bool \<Rightarrow> json io" where
  "prepare_server_config e debugMode =
     io_bind (io_step e ''prepare_server_config'') (\<lambda>configPrepStep.
     io_bind (io_do (logToFile e (''Running in '' @ (if isNpx e then ''npx'' else ''local'') @ '' mode'') False)) (\<lambda>_.
     io_bind (if debugMode then
                io_do (logToFile e
                  (''Setting up debug configuration with '' @ (if isNpx e then ''npx'' else ''local path'')
                   @ ''. The process will pause on start until a debugger connects.'') False)
              else io_return ()) (\<lambda>_.
     io_bind (io_do (updateSetupStep e configPrepStep ''completed'' None)) (\<lambda>_.
     io_return (serverConfig e debugMode)))))"

text \<open>
  Lines 491 to 515. The three statements of the merge run first; the removal of the
  legacy entry is logged once they are done (when it is logged, none of them throws).
\<close>

definition update_config :: "env \<Rightarrow> path \<Rightarrow> json \<Rightarrow> json \<Rightarrow> unit io" where
  "update_config e cp config sc =
     io_bind (io_step e ''update_config'') (\<lambda>updateConfigStep.
     io_catch
       (io_bind (io_of (merge_flag config sc)) (\<lambda>(config', removed).
        io_bind (if removed then io_do (logToFile e ''Removed old desktopCommander configuration'' False)
                 else io_return ()) (\<lambda>_.
        io_bind (writeFileSync cp (stringify e config')) (\<lambda>_.
        io_bind (io_do (updateSetupStep e updateConfigStep ''completed'' None)) (\<lambda>_.
        io_do (logToFile e ''Configuration updated successfully'' False))))))
       (\<lambda>updateError.
        io_bind (io_do (updateSetupStep e updateConfigStep ''failed'' (Some updateError))) (\<lambda>_.
        io_throw (Error (''Failed to update config: '' @ emessage updateError)))))"

text \<open>
  The phases that can abort the run, in order (lines 346 to 515); closing the readline
  interface between the first two has no effect on the state.
\<close>

definition hard_phases :: "env \<Rightarrow> path \<Rightarrow> bool \<Rightarrow> unit io" where
  "hard_phases e cp debugMode =
     io_bind (configureFilesystemAccess e) (\<lambda>_.
     io_bind (check_config_directory e cp) (\<lambda>_.
     io_bind (check_config_file e cp) (\<lambda>config.
     io_bind (prepare_server_config e debugMode) (\<lambda>sc.
     update_config e cp config sc))))"

definition usage_message :: "bool \<Rightarrow> string" where
  "usage_message debugMode =
     (if debugMode then
        newline # ''To use the debug server:'' @ newline # ''1. Restart Claude if it'' @ squote
        # ''s currently running'' @ newline # ''2. The server will be available as '' @ dquote
        # ''desktop-commander-debug'' @ dquote # '' in Claude'' @ squote # ''s MCP server list''
        @ newline # ''3. Connect your debugger to port 9229''
      else
        newline # ''To use the server:'' @ newline # ''1. Restart Claude if it'' @ squote
        # ''s currently running'' @ newline # ''2. The server will be available as '' @ dquote
        # ''desktop-commander'' @ dquote # '' in Claude'' @ squote # ''s MCP server list'')"

text \<open>Lines 517 to 533: what follows the last hard phase.\<close>

definition after_persist :: "env \<Rightarrow> path \<Rightarrow> bool \<Rightarrow> nat \<Rightarrow> bool io" where
  "after_persist e cp debugMode setupStep =
     io_bind (io_do (logToFile e ''Successfully added MCP server to Claude configuration!'' False)) (\<lambda>_.
     io_bind (io_do (logToFile e (''Configuration location: '' @ path_text e cp) False)) (\<lambda>_.
     io_bind (io_do (logToFile e (usage_message debugMode) False)) (\<lambda>_.
     io_bind (restartClaude e) (\<lambda>_.
     io_bind (io_do (updateSetupStep e setupStep ''completed'' None)) (\<lambda>_.
     io_bind (io_do (logToFile e ''Setup completed successfully'' False)) (\<lambda>_.
     io_return True))))))"

text \<open>The state in which the \<^verbatim>\<open>try\<close> block of \<open>setup\<close> starts (lines 329 to 344).\<close>

definition setup_prologue :: "env \<Rightarrow> state \<Rightarrow> nat \<times> state" where
  "setup_prologue e s =
     (case addSetupStep e ''main_setup'' ''started'' None s of
        (setupStep, s1) \<Rightarrow>
          (let s2 = fold console_log ([[newline]] @ banner e @ [[newline]]) s1;
               s3 = (if isDebugMode e
                     then logToFile e ''Debug mode enabled. Will configure with Node.js inspector options.'' False s2
                     else s2)
           in (setupStep, s3)))"

definition
  "setup (e :: env) (cp :: path) (s :: state) =
     (case setup_prologue e s of
        (setupStep, s3) \<Rightarrow>
          (case io_bind (hard_phases e cp (isDebugMode e))
                  (\<lambda>_. after_persist e cp (isDebugMode e) setupStep) s3 of
             (Inr ok, s') \<Rightarrow> (ok, s')
           | (Inl err, s') \<Rightarrow>
               (False,
                logToFile e (''Error updating Claude configuration: '' @ error_string err) True
                  (updateSetupStep e setupStep ''failed'' (Some err) s'))))"

section \<open>Error sanitising (utils/capture.ts)\<close>

text \<open>
  \<open>sanitizeError\<close> takes any value: an \<^verbatim>\<open>Error\<close> object (with an optional
  \<^verbatim>\<open>code\<close>), a string, or something else.
\<close>

datatype thrown = ErrorObject jserror "string option" | StringValue string | OtherValue

record sanitized =
  message :: string
  code :: "string option"

definition word_char :: "char \<Rightarrow> bool" where
  "word_char c =
     (let n = (of_char c :: nat)
      in (48 \<le> n \<and> n \<le> 57) \<or> (65 \<le> n \<and> n \<le> 90) \<or> (97 \<le> n \<and> n \<le> 122) \<or> n = 95)"

definition alpha_char :: "char \<Rightarrow> bool" where
  "alpha_char c = (let n = (of_char c :: nat) in (65 \<le> n \<and> n \<le> 90) \<or> (97 \<le> n \<and> n \<le> 122))"

text \<open>
  The class \<^verbatim>\<open>[\w\d_.-\/\\]\<close>: word characters, the range from \<^verbatim>\<open>.\<close> to \<^verbatim>\<open>/\<close> (these two
  characters only, so not the hyphen) and the backslash.
\<close>

definition path_char :: "char \<Rightarrow> bool" where
  "path_char c = (word_char c \<or> c = CHR ''.'' \<or> c = CHR ''/'' \<or> c = backslash)"

text \<open>\<^verbatim>\<open>.replace(/(?:\/|\\)[\w\d_.-\/\\]+/g, '[PATH]')\<close>\<close>

function redact_paths :: "string \<Rightarrow> string" where
  "redact_paths [] = []"
| "redact_paths (c # cs) =
     (if (c = CHR ''/'' \<or> c = backslash) \<and> cs \<noteq> [] \<and> path_char (hd cs)
      then ''[PATH]'' @ redact_paths (dropWhile path_char cs)
      else c # redact_paths cs)"
  by pat_completeness auto
termination
  by (relation "measure length") (auto simp: length_dropWhile_le less_Suc_eq_le)

text \<open>\<^verbatim>\<open>.replace(/[A-Za-z]:\\[\w\d_.-\/\\]+/g, '[PATH]')\<close>\<close>

function redact_drive_paths :: "string \<Rightarrow> string" where
  "redact_drive_paths [] = []"
| "redact_drive_paths (c # cs) =
     (if alpha_char c \<and> take 2 cs = [CHR '':'', backslash] \<and> drop 2 cs \<noteq> [] \<and> path_char (hd (drop 2 cs))
      then ''[PATH]'' @ redact_drive_paths (dropWhile path_char (drop 2 cs))
      else c # redact_drive_paths cs)"
  by pat_completeness auto
termination
  by (relation "measure length")
     (auto simp: less_Suc_eq_le intro: order_trans [OF length_dropWhile_le])

definition sanitizeError :: "thrown \<Rightarrow> sanitized" where
  "sanitizeError err =
     (let errorMessage = (case err of
                            ErrorObject x c \<Rightarrow> ename x @ '': '' @ emessage x
                          | StringValue s \<Rightarrow> s
                          | OtherValue \<Rightarrow> ''Unknown error'');
          errorCode = (case err of ErrorObject x c \<Rightarrow> c | _ \<Rightarrow> None)
      in \<lparr>message = redact_drive_paths (redact_paths errorMessage), code = errorCode\<rparr>)"

section \<open>Auxiliary notions for the statements\<close>

fun is_object :: "json \<Rightarrow> bool" where
  "is_object (JObj kvs) = True"
| "is_object v = False"

text \<open>The entries under \<^verbatim>\<open>mcpServers\<close>; none when it is missing or not an object.\<close>

definition servers :: "json \<Rightarrow> (string \<times> json) list" where
  "servers c = (case member c ''mcpServers'' of None \<Rightarrow> [] | Some m \<Rightarrow> entries m)"


text \<open>The ancestors of a directory and the directory itself: what a recursive \<^verbatim>\<open>mkdir\<close> creates.\<close>

definition ancestors :: "path \<Rightarrow> path set" where
  "ancestors p = set (map (\<lambda>n. take n p) [0..<Suc (length p)])"

text \<open>An operation whose planned outcomes are used up keeps succeeding.\<close>

definition calm :: "state \<Rightarrow> state \<Rightarrow> bool" where
  "calm s s' = (\<forall>c. plan s c = [] \<longrightarrow> plan s' c = [])"

text \<open>
  What every statement of the run other than a write to the host config path \<open>cp\<close>
  leaves alone: the file at \<open>cp\<close>, the outcomes planned for writes to it, and the
  directories other than the ancestors of the two directories the run may create.
\<close>

definition frame :: "env \<Rightarrow> path \<Rightarrow> state \<Rightarrow> state \<Rightarrow> bool" where
  "frame e cp s s' =
     (files s' cp = files s cp \<and>
      plan s' (WriteFile cp) = plan s (WriteFile cp) \<and>
      dirs s' \<subseteq> dirs s \<union> ancestors (toolDir e) \<union> ancestors (butlast cp) \<and>
      calm s s')"

definition io_frame :: "(state \<Rightarrow> state \<Rightarrow> bool) \<Rightarrow> 'a io \<Rightarrow> bool" where
  "io_frame R m = (\<forall>s. R s (snd (m s)))"

definition never_throws :: "'a io \<Rightarrow> bool" where
  "never_throws m = (\<forall>s. \<exists>x. fst (m s) = Inr x)"

text \<open>Started where \<open>P\<close> holds, the program returns normally and \<open>P\<close> still holds.\<close>

definition io_ok :: "(state \<Rightarrow> bool) \<Rightarrow> 'a io \<Rightarrow> bool" where
  "io_ok P m = (\<forall>s. P s \<longrightarrow> (\<exists>x. fst (m s) = Inr x) \<and> P (snd (m s)))"

text \<open>The outcome the next write to \<open>cp\<close> will have.\<close>

definition write_outcome :: "path \<Rightarrow> state \<Rightarrow> outcome" where
  "write_outcome cp s = fst (next_outcome (WriteFile cp) s)"

text \<open>No operation fails, or none but writes to \<open>cp\<close>.\<close>

definition fault_free :: "state \<Rightarrow> bool" where
  "fault_free s = (\<forall>c. plan s c = [])"

definition quiet :: "path \<Rightarrow> state \<Rightarrow> bool" where
  "quiet cp s = (\<forall>c. c \<noteq> WriteFile cp \<longrightarrow> plan s c = [])"

text \<open>The kill command of the restart is rejected (no such process, or a timeout).\<close>

definition kill_fails :: "env \<Rightarrow> state \<Rightarrow> bool" where
  "kill_fails e s =
     (case kill_command e of
        None \<Rightarrow> False
      | Some c \<Rightarrow> fst (next_outcome (Exec (actualCommand e c)) s) \<noteq> Ok)"

text \<open>Step \<open>j\<close> of the tracker is in \<open>s'\<close> what it was in \<open>s\<close>.\<close>

definition keeps_at :: "nat \<Rightarrow> state \<Rightarrow> state \<Rightarrow> bool" where
  "keeps_at j s s' = (j < length (setupSteps s') \<and> setupSteps s' ! j = setupSteps s ! j)"

text \<open>The default config with the server entry merged in.\<close>

definition merged_default :: "env \<Rightarrow> json" where
  "merged_default e =
     JObj [(''serverConfig'',
            (if isWindows e
             then JObj [(''command'', JStr ''cmd.exe''), (''args'', JArr [JStr ''/c''])]
             else JObj [(''command'', JStr ''/bin/sh''), (''args'', JArr [JStr ''-c''])])),
           (''mcpServers'', JObj [(''desktop-commander'', serverConfig e (isDebugMode e))])]"

section \<open>A concrete runtime for examples\<close>

text \<open>
  \<^verbatim>\<open>JSON.stringify(value, null, 2)\<close> on the values of the examples: two spaces of
  indentation per level, members separated by a comma and a line break. Of the string
  escapes only those of the quote, the backslash and the line break are covered.
\<close>

fun escape_char :: "char \<Rightarrow> string" where
  "escape_char c =
     (if c = dquote then [backslash, dquote]
      else if c = backslash then [backslash, backslash]
      else if c = newline then [backslash, CHR ''n'']
      else [c])"

definition quoted :: "string \<Rightarrow> string" where
  "quoted s = dquote # concat (map escape_char s) @ [dquote]"

definition int_text :: "int \<Rightarrow> string" where
  "int_text i = (if i < 0 then CHR ''-'' # dec (nat (- i)) else dec (nat i))"

fun json_text_at :: "nat \<Rightarrow> json \<Rightarrow> string" where
  "json_text_at n JNull = ''null''"
| "json_text_at n (JBool b) = (if b then ''true'' else ''false'')"
| "json_text_at n (JNum i) = int_text i"
| "json_text_at n (JStr s) = quoted s"
| "json_text_at n (JArr xs) =
     (if xs = [] then ''[]''
      else ''['' @ [newline]
           @ intercalate ('','' @ [newline])
               (map (\<lambda>x. replicate (n + 2) CHR '' '' @ json_text_at (n + 2) x) xs)
           @ [newline] @ replicate n CHR '' '' @ '']'')"
| "json_text_at n (JObj kvs) =
     (if kvs = [] then ''{}''
      else ''{'' @ [newline]
           @ intercalate ('','' @ [newline])
               (map (\<lambda>kv. replicate (n + 2) CHR '' '' @ quoted (fst kv) @ '': ''
                           @ json_text_at (n + 2) (snd kv)) kvs)
           @ [newline] @ replicate n CHR '' '' @ ''}'')"

definition json_text :: "json \<Rightarrow> string" where
  "json_text v = json_text_at 0 v"

text \<open>
  A host config as the spec's scenario has it: an unrelated top-level key, a legacy
  entry and an unrelated server.
\<close>

definition legacy_config :: json where
  "legacy_config =
     JObj [(''other'', JNum 1),
           (''mcpServers'',
              JObj [(''desktopCommander'', JObj [(''command'', JStr ''old-node'')]),
                    (''unrelated'', JObj [(''command'', JStr ''other-tool'')])])]"

text \<open>A tool config left by an earlier run, with its own shell and a wider directory list.\<close>

definition old_tool_config :: json where
  "old_tool_config =
     JObj [(''defaultShell'', JStr ''zsh''), (''allowedDirectories'', JArr [JStr ''/''])]"

text \<open>A parser that knows the two texts above and rejects everything else.\<close>

definition example_parse :: "string \<Rightarrow> string + json" where
  "example_parse txt =
     (if txt = json_text legacy_config then Inr legacy_config
      else if txt = json_text old_tool_config then Inr old_tool_config
      else Inl ''Unexpected token in JSON'')"

definition example_env :: env where
  "example_env =
     \<lparr>platform = ''linux'', homedir = [''home'', ''u''], appdata = None,
      module_dir = [''opt'', ''dc''], module_url = ''file:///opt/dc/setup-claude-server.js'',
      argv = [''node'', ''/opt/dc/setup-claude-server.js''],
      parse = example_parse, stringify = json_text,
      iso_now = ''2025-01-01T00:00:00.000Z'', ms_now = 5, ms_start = 0, banner = []\<rparr>"

definition example_cp :: path where
  "example_cp = [''home'', ''u'', ''.config'', ''Claude'', ''claude_desktop_config.json'']"

text \<open>The server entry of a run from a local checkout without \<^verbatim>\<open>--debug\<close>.\<close>

definition example_entry :: json where
  "example_entry = JObj [(''command'', JStr ''node''), (''args'', JArr [JStr ''/opt/dc/dist/index.js''])]"

text \<open>The scenario config after the merge of that entry.\<close>

definition merged_legacy :: json where
  "merged_legacy =
     JObj [(''other'', JNum 1),
           (''mcpServers'',
              JObj [(''unrelated'', JObj [(''command'', JStr ''other-tool'')]),
                    (''desktop-commander'', example_entry)])]"

text \<open>A home directory with nothing in it, and no failing operation.\<close>

definition fresh_state :: state where
  "fresh_state =
     \<lparr>files = Map.empty, dirs = {[], [''home''], [''home'', ''u'']},
      setupSteps = [], console = [], plan = (\<lambda>c. [])\<rparr>"

text \<open>The host config of the scenario is on disk.\<close>

definition installed_state :: state where
  "installed_state = fresh_state\<lparr>files := [example_cp \<mapsto> json_text legacy_config]\<rparr>"

text \<open>The same, with a disk that fills up seven bytes into the next write of the host config.\<close>

definition full_disk_state :: state where
  "full_disk_state =
     installed_state\<lparr>plan := (\<lambda>c. [])(WriteFile example_cp :=
                                 [FailAfter 7 ''ENOSPC: no space left on device, write''])\<rparr>"

text \<open>The same, with a host config file that cannot be opened for writing.\<close>

definition readonly_state :: state where
  "readonly_state =
     installed_state\<lparr>plan := (\<lambda>c. [])(WriteFile example_cp :=
                                 [Fail ''EACCES: permission denied, open''])\<rparr>"

text \<open>The host config file holds text that is not JSON.\<close>

definition malformed_state :: state where
  "malformed_state = fresh_state\<lparr>files := [example_cp \<mapsto> ''{ mcpServers: oops'']\<rparr>"


text \<open>The home directory is not writable: creating the tool directory fails once.\<close>

definition denied :: string where
  "denied = ''EACCES: permission denied, mkdir /home/u/.claude-server-commander''"

definition locked_state :: state where
  "locked_state = fresh_state\<lparr>plan := (\<lambda>c. [])(Mkdir (toolDir example_env) := [Fail denied])\<rparr>"

text \<open>No host application is running: the kill command exits with a failure.\<close>

definition no_process_state :: state where
  "no_process_state =
     fresh_state\<lparr>plan := (\<lambda>c. [])(Exec (''pkill -f '' @ [dquote] @ ''claude'' @ [dquote]) :=
                               [Fail ''Command failed: pkill -f claude''])\<rparr>"

text \<open>A message still holds a path fragment when redacting it changes it.\<close>

definition holds_path :: "string \<Rightarrow> bool" where
  "holds_path m = (redact_drive_paths (redact_paths m) \<noteq> m)"

section \<open>Lemmas\<close>

subsection \<open>Facts about the merge\<close>

lemma names_neq: "legacy_name \<noteq> server_name" "server_name \<noteq> legacy_name"
  by (simp_all add: legacy_name_def server_name_def)

lemma merge_flag_JObj:
  "merge_flag (JObj kvs) sc =
     (let m0 = map_of kvs ''mcpServers'' in
      if \<not> truthy m0 then Inr (JObj (AList.update ''mcpServers'' (JObj [(server_name, sc)]) kvs), False)
      else (case the m0 of
              JObj es \<Rightarrow>
                Inr (JObj (AList.update ''mcpServers''
                       (JObj (AList.update server_name sc
                          (if truthy (map_of es legacy_name) then AList.delete legacy_name es else es))) kvs),
                     truthy (map_of es legacy_name))
            | JArr xs \<Rightarrow> Inr (JObj (AList.update ''mcpServers'' (JArr xs) kvs), False)
            | _ \<Rightarrow> Inl (TypeError (''Cannot create property '' @ server_name))))"
  by (cases "map_of kvs ''mcpServers''")
     (auto simp: merge_flag_def Let_def split: json.splits)

lemma merge_flag_other:
  "\<not> is_object c \<Longrightarrow> merge_flag c sc = Inr (c', r) \<Longrightarrow> c' = c \<and> \<not> r"
  by (cases c) (auto simp: merge_flag_def Let_def)

lemma merge_keeps_others:
  assumes "merge c sc = Inr c'"
  shows "(\<forall>k. k \<noteq> ''mcpServers'' \<longrightarrow> member c' k = member c k)
       \<and> (\<forall>n. n \<noteq> server_name \<longrightarrow> n \<noteq> legacy_name \<longrightarrow> map_of (servers c') n = map_of (servers c) n)
       \<and> (\<not> is_object c \<longrightarrow> c' = c)"
proof (cases c)
  case (JObj kvs)
  with assms show ?thesis
    apply (cases "map_of kvs ''mcpServers''")
    apply (auto simp: merge_def merge_flag_JObj Let_def names_neq AList.update_conv' AList.delete_conv' member_def servers_def
             split: json.splits if_splits)
    done
qed (use assms in \<open>auto simp: merge_def merge_flag_def member_def servers_def\<close>)

subsection \<open>Rules for relations between the states of a run\<close>

lemma io_frame_return: "reflp R \<Longrightarrow> io_frame R (io_return x)"
  by (simp add: io_frame_def io_return_def reflp_def)

lemma io_frame_throw: "reflp R \<Longrightarrow> io_frame R (io_throw err)"
  by (simp add: io_frame_def io_throw_def reflp_def)

lemma io_frame_of: "reflp R \<Longrightarrow> io_frame R (io_of r)"
  by (simp add: io_frame_def io_of_def reflp_def)

lemma io_frame_test: "reflp R \<Longrightarrow> io_frame R (io_test P)"
  by (simp add: io_frame_def io_test_def reflp_def)

lemma io_frame_do: "(\<And>s. R s (f s)) \<Longrightarrow> io_frame R (io_do f)"
  by (simp add: io_frame_def io_do_def)

lemma io_frame_bind:
  assumes "transp R" "io_frame R m" "\<And>x. io_frame R (f x)"
  shows "io_frame R (io_bind m f)"
  unfolding io_frame_def io_bind_def
proof
  fix s
  obtain r s1 where m: "m s = (r, s1)" by (cases "m s")
  from assms(2) m have 1: "R s s1" by (auto simp: io_frame_def dest: spec [of _ s])
  show "R s (snd (case m s of (Inl err, s') \<Rightarrow> (Inl err, s') | (Inr x, s') \<Rightarrow> f x s'))"
  proof (cases r)
    case (Inl err)
    with m 1 show ?thesis by simp
  next
    case (Inr x)
    from assms(3) [of x] have "R s1 (snd (f x s1))" by (simp add: io_frame_def)
    with 1 assms(1) have "R s (snd (f x s1))" by (blast dest: transpD)
    with m Inr show ?thesis by simp
  qed
qed

lemma io_frame_catch:
  assumes "transp R" "io_frame R m" "\<And>err. io_frame R (h err)"
  shows "io_frame R (io_catch m h)"
  unfolding io_frame_def io_catch_def
proof
  fix s
  obtain r s1 where m: "m s = (r, s1)" by (cases "m s")
  from assms(2) m have 1: "R s s1" by (auto simp: io_frame_def dest: spec [of _ s])
  show "R s (snd (case m s of (Inl err, s') \<Rightarrow> h err s' | (Inr x, s') \<Rightarrow> (Inr x, s')))"
  proof (cases r)
    case (Inr x)
    with m 1 show ?thesis by simp
  next
    case (Inl err)
    from assms(3) [of err] have "R s1 (snd (h err s1))" by (simp add: io_frame_def)
    with 1 assms(1) have "R s (snd (h err s1))" by (blast dest: transpD)
    with m Inl show ?thesis by simp
  qed
qed

lemma io_frame_if: "io_frame R m \<Longrightarrow> io_frame R m' \<Longrightarrow> io_frame R (if b then m else m')"
  by simp

lemma io_frameD: "io_frame R m \<Longrightarrow> m s = (r, s') \<Longrightarrow> R s s'"
  by (auto simp: io_frame_def dest: spec [of _ s])

lemma frame_refl: "frame e cp s s"
  by (auto simp: frame_def calm_def)

lemma frame_trans: "frame e cp s s1 \<Longrightarrow> frame e cp s1 s2 \<Longrightarrow> frame e cp s s2"
  by (auto simp: frame_def calm_def)

lemma reflp_frame: "reflp (frame e cp)"
  by (simp add: reflp_def frame_refl)

lemma transp_frame: "transp (frame e cp)"
  by (auto simp: transp_def intro: frame_trans)

lemma frame_next_outcome:
  "c \<noteq> WriteFile cp \<Longrightarrow> next_outcome c s = (r, s') \<Longrightarrow> frame e cp s s'"
  by (auto simp: next_outcome_def frame_def calm_def split: list.splits)

lemma frame_mkdir_tool: "io_frame (frame e cp) (mkdirSync (toolDir e))"
  by (auto simp: io_frame_def mkdirSync_def next_outcome_def frame_def calm_def ancestors_def
           split: list.splits outcome.splits)

lemma frame_mkdir_parent: "io_frame (frame e cp) (mkdirSync (butlast cp))"
  by (auto simp: io_frame_def mkdirSync_def next_outcome_def frame_def calm_def ancestors_def
           split: list.splits outcome.splits)

lemma frame_read: "io_frame (frame e cp) (readFileSync q)"
  by (auto simp: io_frame_def readFileSync_def next_outcome_def frame_def calm_def
           split: list.splits outcome.splits option.splits)

lemma frame_write: "q \<noteq> cp \<Longrightarrow> io_frame (frame e cp) (writeFileSync q txt)"
  by (auto simp: io_frame_def writeFileSync_def next_outcome_def frame_def calm_def
           split: list.splits outcome.splits)

lemma frame_append: "q \<noteq> cp \<Longrightarrow> io_frame (frame e cp) (appendFileSync q txt)"
  by (auto simp: io_frame_def appendFileSync_def next_outcome_def frame_def calm_def Let_def
           split: list.splits outcome.splits)

lemma frame_console_log: "frame e cp s (console_log m s)"
  by (auto simp: frame_def calm_def console_log_def)

lemma frame_console_error: "frame e cp s (console_error m s)"
  by (auto simp: frame_def calm_def console_error_def)

lemma frame_updateSetupStep: "frame e cp s (updateSetupStep e i st err s)"
  by (auto simp: frame_def calm_def updateSetupStep_def)

lemma frame_step: "io_frame (frame e cp) (io_step e nm)"
  by (auto simp: io_frame_def io_step_def addSetupStep_def frame_def calm_def)

lemma frame_json_parse: "io_frame (frame e cp) (json_parse e txt)"
  by (simp add: json_parse_def io_frame_of reflp_frame)

lemmas frame_intros =
  io_frame_bind [OF transp_frame] io_frame_catch [OF transp_frame]
  io_frame_return [OF reflp_frame] io_frame_throw [OF reflp_frame]
  io_frame_of [OF reflp_frame] io_frame_test [OF reflp_frame]
  io_frame_do io_frame_if
  frame_mkdir_tool frame_mkdir_parent frame_read frame_write frame_append
  frame_console_log frame_console_error frame_updateSetupStep frame_step frame_json_parse

lemma frame_console_log_iff: "frame e cp s (console_log m s') = frame e cp s s'"
  by (simp add: frame_def calm_def console_log_def)

lemma frame_console_error_iff: "frame e cp s (console_error m s') = frame e cp s s'"
  by (simp add: frame_def calm_def console_error_def)

lemma frame_updateSetupStep_iff: "frame e cp s (updateSetupStep e i st err s') = frame e cp s s'"
  by (simp add: frame_def calm_def updateSetupStep_def)

lemma frame_logToFile:
  assumes "cp \<noteq> logFile e"
  shows "frame e cp s (logToFile e m b s)"
proof -
  let ?body = "io_bind (if \<not> existsSync (toolDir e) s then mkdirSync (toolDir e) else io_return ())
             (\<lambda>_. io_bind (appendFileSync (logFile e) (logMessage e m b))
             (\<lambda>_. io_do (if b then console_error m else console_log m)))"
  have "io_frame (frame e cp) ?body"
    using assms by (intro frame_intros) (auto intro: frame_intros)
  then have 1: "frame e cp s (snd (?body s))"
    by (simp add: io_frame_def)
  show ?thesis
    unfolding logToFile_def
    using 1
    by (cases "?body s")
       (auto simp: Let_def frame_console_log_iff frame_console_error_iff split: sum.splits)
qed

lemma frame_logToFile_iff:
  "cp \<noteq> logFile e \<Longrightarrow> frame e cp s s1 \<Longrightarrow> frame e cp s (logToFile e m b s1)"
  by (blast intro: frame_trans frame_logToFile)

subsection \<open>The phases leave the host config file alone\<close>

lemma host_path_facts:
  assumes "claudeConfigPath e = Inr cp"
  shows "cp \<noteq> logFile e" "cp \<noteq> toolConfigFile e" "cp \<noteq> []"
proof -
  from assms have l: "last cp = ''claude_desktop_config.json'' \<or> last cp = ''.claude_desktop_config.json''"
    and n: "cp \<noteq> []"
    by (auto simp: claudeConfigPath_def split: if_splits option.splits)
  show "cp \<noteq> []" by (rule n)
  show "cp \<noteq> logFile e"
  proof
    assume "cp = logFile e"
    then have "last cp = ''setup.log''" by (simp add: logFile_def)
    with l show False by simp
  qed
  show "cp \<noteq> toolConfigFile e"
  proof
    assume "cp = toolConfigFile e"
    then have "last cp = ''config.json''" by (simp add: toolConfigFile_def)
    with l show False by simp
  qed
qed

lemma frame_log:
  "cp \<noteq> logFile e \<Longrightarrow> io_frame (frame e cp) (io_do (logToFile e m b))"
  by (simp add: io_frame_do frame_logToFile)

lemma frame_execAsync: "io_frame (frame e cp) (execAsync e c)"
  by (auto simp: io_frame_def execAsync_def addSetupStep_def next_outcome_def
        frame_updateSetupStep_iff
        split: prod.splits outcome.splits list.splits)
     (auto simp: frame_def calm_def)

lemma frame_ensure_tool_dir:
  assumes "cp \<noteq> logFile e"
  shows "io_frame (frame e cp) (ensure_tool_dir e)"
  unfolding ensure_tool_dir_def
  using assms
  by (intro frame_intros frame_log) (auto intro!: frame_intros frame_log)

lemma frame_load_tool_config:
  assumes "cp \<noteq> logFile e"
  shows "io_frame (frame e cp) (load_tool_config e)"
  unfolding load_tool_config_def
  using assms
  by (intro frame_intros frame_log) (auto intro!: frame_intros frame_log)

lemma frame_save_tool_config:
  assumes "cp \<noteq> logFile e" "cp \<noteq> toolConfigFile e"
  shows "io_frame (frame e cp) (save_tool_config e c)"
  unfolding save_tool_config_def
  using assms
  by (intro frame_intros frame_log) (auto intro!: frame_intros frame_log)

lemma frame_configureFilesystemAccess:
  assumes "cp \<noteq> logFile e" "cp \<noteq> toolConfigFile e"
  shows "io_frame (frame e cp) (configureFilesystemAccess e)"
  unfolding configureFilesystemAccess_def Let_def
  using assms
  by (intro frame_intros frame_log frame_ensure_tool_dir frame_load_tool_config frame_save_tool_config)
     (auto intro!: frame_intros frame_log)

lemma frame_check_config_directory:
  assumes "cp \<noteq> logFile e"
  shows "io_frame (frame e cp) (check_config_directory e cp)"
  unfolding check_config_directory_def
  using assms
  by (intro frame_intros frame_log) (auto intro!: frame_intros frame_log)

lemma frame_prepare_server_config:
  assumes "cp \<noteq> logFile e"
  shows "io_frame (frame e cp) (prepare_server_config e d)"
  unfolding prepare_server_config_def
  using assms
  by (intro frame_intros frame_log) (auto intro!: frame_intros frame_log)

lemma frame_kill:
  assumes "cp \<noteq> logFile e"
  shows "io_frame (frame e cp) (kill_claude_process e)"
  unfolding kill_claude_process_def
  using assms
  by (intro frame_intros frame_log) (auto intro!: frame_intros frame_log frame_execAsync split: option.splits)

lemma frame_start:
  assumes "cp \<noteq> logFile e"
  shows "io_frame (frame e cp) (start_claude_process e i)"
  unfolding start_claude_process_def
  using assms
  by (intro frame_intros frame_log) (auto intro!: frame_intros frame_log frame_execAsync)

lemma frame_restartClaude:
  assumes "cp \<noteq> logFile e"
  shows "io_frame (frame e cp) (restartClaude e)"
  unfolding restartClaude_def
  using assms
  by (intro frame_intros frame_log frame_kill frame_start) (auto intro!: frame_intros frame_log)

lemma frame_after_persist:
  assumes "cp \<noteq> logFile e"
  shows "io_frame (frame e cp) (after_persist e cp d i)"
  unfolding after_persist_def
  using assms
  by (intro frame_intros frame_log frame_restartClaude) (auto intro!: frame_intros frame_log)

subsection \<open>The restart never throws\<close>

lemma io_bind_do: "io_bind (io_do f) g s = g () (f s)"
  by (simp add: io_bind_def io_do_def)

lemma nt_return: "never_throws (io_return x)"
  by (simp add: never_throws_def io_return_def)

lemma nt_do: "never_throws (io_do f)"
  by (simp add: never_throws_def io_do_def)

lemma nt_test: "never_throws (io_test P)"
  by (simp add: never_throws_def io_test_def)

lemma nt_step: "never_throws (io_step e nm)"
  by (simp add: never_throws_def io_step_def split: prod.splits)

lemma nt_bind: "never_throws m \<Longrightarrow> (\<And>x. never_throws (f x)) \<Longrightarrow> never_throws (io_bind m f)"
  unfolding never_throws_def io_bind_def
proof
  fix s
  assume m: "\<forall>s. \<exists>x. fst (m s) = Inr x" and f: "\<And>x. \<forall>s. \<exists>y. fst (f x s) = Inr y"
  from m obtain x where "fst (m s) = Inr x" by blast
  then obtain s1 where 1: "m s = (Inr x, s1)" by (cases "m s") simp
  from f obtain y where "fst (f x s1) = Inr y" by blast
  with 1 show "\<exists>x. fst (case m s of (Inl err, s') \<Rightarrow> (Inl err, s') | (Inr x, s') \<Rightarrow> f x s') = Inr x"
    by simp
qed

lemma nt_catch: "(\<And>err. never_throws (h err)) \<Longrightarrow> never_throws (io_catch m h)"
  unfolding never_throws_def io_catch_def
proof
  fix s
  assume h: "\<And>err. \<forall>s. \<exists>y. fst (h err s) = Inr y"
  obtain r s1 where 1: "m s = (r, s1)" by (cases "m s")
  show "\<exists>x. fst (case m s of (Inl err, s') \<Rightarrow> h err s' | (Inr x, s') \<Rightarrow> (Inr x, s')) = Inr x"
  proof (cases r)
    case (Inl err)
    from h obtain y where "fst (h err s1) = Inr y" by blast
    with 1 Inl show ?thesis by simp
  next
    case (Inr x)
    with 1 show ?thesis by simp
  qed
qed

lemma never_throws_restartClaude: "never_throws (restartClaude e)"
  unfolding restartClaude_def
  by (intro nt_bind nt_step nt_catch nt_do)

lemma restartClaude_returns: "fst (restartClaude e s) = Inr ()"
  using never_throws_restartClaude [of e] by (simp add: never_throws_def)

lemma restartClaude_not_Inl: "restartClaude e s \<noteq> (Inl err, s')"
  using restartClaude_returns [of e s] by auto

lemma after_persist_returns: "fst (after_persist e cp d i s) = Inr True"
  unfolding after_persist_def io_bind_do
  by (simp add: io_bind_def io_return_def io_do_def restartClaude_not_Inl split: prod.splits sum.splits)

lemma frame_prologue:
  assumes "cp \<noteq> logFile e"
  shows "frame e cp s (snd (setup_prologue e s))"
proof -
  have f: "\<And>ms t. frame e cp s t \<Longrightarrow> frame e cp s (fold console_log ms t)"
  proof -
    fix ms t show "frame e cp s t \<Longrightarrow> frame e cp s (fold console_log ms t)"
      by (induction ms arbitrary: t) (simp_all add: frame_console_log_iff)
  qed
  have "frame e cp s (snd (addSetupStep e ''main_setup'' ''started'' None s))"
    by (auto simp: addSetupStep_def frame_def calm_def)
  then show ?thesis
    using assms
    by (auto simp: setup_prologue_def Let_def frame_console_log_iff split: prod.splits
          intro!: f frame_logToFile_iff)
qed

subsection \<open>Reading and persisting the host config\<close>

lemma frame_read_existing:
  assumes "cp \<noteq> logFile e"
  shows "io_frame (frame e cp) (read_existing_config e cp i)"
  unfolding read_existing_config_def
  using assms
  by (intro frame_intros frame_log) (auto intro!: frame_intros frame_log)

lemma read_existing_result:
  assumes "files s cp = Some txt" "read_existing_config e cp i s = (Inr config, s')"
  shows "parse e txt = Inr config"
  using assms
  unfolding read_existing_config_def
  by (auto simp: io_bind_def io_catch_def io_step_def addSetupStep_def readFileSync_def
        next_outcome_def json_parse_def io_of_def io_do_def io_throw_def io_return_def
        split: prod.splits sum.splits outcome.splits list.splits)

lemma writeFileSync_result:
  assumes "writeFileSync cp txt s = (r, s')"
  shows "(case write_outcome cp s of
            Ok \<Rightarrow> r = Inr () \<and> files s' cp = Some txt
          | Fail m \<Rightarrow> r = Inl (Error m) \<and> files s' cp = files s cp
          | FailAfter k m \<Rightarrow> r = Inl (Error m) \<and> files s' cp = Some (take k txt))"
  using assms
  by (auto simp: writeFileSync_def write_outcome_def next_outcome_def split: list.splits outcome.splits)

lemma frame_write_outcome: "frame e cp s s' \<Longrightarrow> write_outcome cp s' = write_outcome cp s"
  by (simp add: frame_def write_outcome_def next_outcome_def split: list.splits)

lemma frame_files: "frame e cp s s' \<Longrightarrow> files s' cp = files s cp"
  by (simp add: frame_def)

lemma io_bind_Inr: "m s = (Inr x, s1) \<Longrightarrow> io_bind m f s = f x s1"
  by (simp add: io_bind_def)

lemma io_bind_Inl: "m s = (Inl err, s1) \<Longrightarrow> io_bind m f s = (Inl err, s1)"
  by (simp add: io_bind_def)

lemma io_catch_Inr: "m s = (Inr x, s1) \<Longrightarrow> io_catch m h s = (Inr x, s1)"
  by (simp add: io_catch_def)

lemma io_catch_Inl: "m s = (Inl err, s1) \<Longrightarrow> io_catch m h s = h err s1"
  by (simp add: io_catch_def)

lemma io_bind_of: "io_bind (io_of r) f s = (case r of Inl err \<Rightarrow> (Inl err, s) | Inr x \<Rightarrow> f x s)"
  by (simp add: io_bind_def io_of_def split: sum.splits)

lemma io_bind_return: "io_bind (io_return x) f s = f x s"
  by (simp add: io_bind_def io_return_def)

lemma io_bind_test: "io_bind (io_test P) f s = f (P s) s"
  by (simp add: io_bind_def io_test_def)

lemma io_bind_throw: "io_bind (io_throw err) f s = (Inl err, s)"
  by (simp add: io_bind_def io_throw_def)

lemma io_do_apply: "io_do f s = (Inr (), f s)"
  by (simp add: io_do_def)

lemma files_updateSetupStep: "files (updateSetupStep e i st err s) = files s"
  by (simp add: updateSetupStep_def)

lemma files_logToFile: "cp \<noteq> logFile e \<Longrightarrow> files (logToFile e m b s) cp = files s cp"
  using frame_logToFile [of cp e s m b] by (simp add: frame_def)

lemma update_config_result:
  assumes lf: "cp \<noteq> logFile e" and run: "update_config e cp config sc s = (r, s')"
  shows "(\<exists>err. merge config sc = Inl err \<and> (\<exists>err'. r = Inl err') \<and> frame e cp s s') \<or>
         (\<exists>config'. merge config sc = Inr config' \<and>
            (case write_outcome cp s of
               Ok \<Rightarrow> r = Inr () \<and> files s' cp = Some (stringify e config')
             | Fail m \<Rightarrow> (\<exists>err. r = Inl err) \<and> files s' cp = files s cp
             | FailAfter k m \<Rightarrow> (\<exists>err. r = Inl err) \<and> files s' cp = Some (take k (stringify e config'))))"
proof -
  obtain i s0 where s0: "io_step e ''update_config'' s = (Inr i, s0)" and f0: "frame e cp s s0"
    by (auto simp: io_step_def addSetupStep_def frame_def calm_def)
  have b0: "io_bind (io_step e ''update_config'') f s = f i s0" for f :: "nat \<Rightarrow> unit io"
    by (simp add: io_bind_def s0)
  show ?thesis
  proof (cases "merge_flag config sc")
    case (Inl err)
    with run have "r = Inl (Error (''Failed to update config: '' @ emessage err))"
      and "s' = updateSetupStep e i ''failed'' (Some err) s0"
      by (simp_all add: update_config_def b0 io_catch_def io_bind_of io_bind_do io_throw_def)
    with f0 Inl show ?thesis
      by (simp add: frame_updateSetupStep_iff merge_def)
  next
    case (Inr cr)
    obtain config' removed where cr: "cr = (config', removed)" by (cases cr)
    have m: "merge config sc = Inr config'" by (simp add: merge_def Inr cr)
    define s1 where "s1 = (if removed then logToFile e ''Removed old desktopCommander configuration'' False s0 else s0)"
    have f1: "frame e cp s s1"
      using f0 lf by (auto simp: s1_def intro: frame_logToFile_iff)
    obtain rw s2 where w: "writeFileSync cp (stringify e config') s1 = (rw, s2)"
      by (cases "writeFileSync cp (stringify e config') s1")
    have b1: "io_bind (if removed then io_do (logToFile e ''Removed old desktopCommander configuration'' False)
                       else io_return ()) f s0 = f () s1" for f :: "unit \<Rightarrow> unit io"
      by (simp add: s1_def io_bind_do io_bind_return)
    have bw: "io_bind (writeFileSync cp (stringify e config')) f s1 =
                (case rw of Inl err \<Rightarrow> (Inl err, s2) | Inr x \<Rightarrow> f x s2)" for f :: "unit \<Rightarrow> unit io"
      by (simp add: io_bind_def w split: sum.splits)
    note wr = writeFileSync_result [OF w, unfolded frame_write_outcome [OF f1] frame_files [OF f1]]
    have "(\<exists>err. rw = Inl err \<and> r = Inl (Error (''Failed to update config: '' @ emessage err)) \<and> files s' cp = files s2 cp)
        \<or> (rw = Inr () \<and> r = Inr () \<and> files s' cp = files s2 cp)"
    proof (cases rw)
      case (Inl err)
      with run show ?thesis
        by (auto simp add: update_config_def b0 io_catch_def io_bind_of
              \<open>merge_flag config sc = Inr cr\<close> cr b1 bw io_bind_do io_throw_def
              files_updateSetupStep)
    next
      case (Inr u)
      with run lf show ?thesis
        by (auto simp add: update_config_def b0 io_catch_def io_bind_of
              \<open>merge_flag config sc = Inr cr\<close> cr b1 bw io_bind_do io_do_apply
              files_updateSetupStep files_logToFile)
    qed
    then have "case write_outcome cp s of
               Ok \<Rightarrow> r = Inr () \<and> files s' cp = Some (stringify e config')
             | Fail m \<Rightarrow> (\<exists>err. r = Inl err) \<and> files s' cp = files s cp
             | FailAfter k m \<Rightarrow> (\<exists>err. r = Inl err) \<and> files s' cp = Some (take k (stringify e config'))"
      using wr by (auto split: outcome.splits)
    with m show ?thesis by blast
  qed
qed

subsection \<open>A run on an existing host config\<close>

lemma prepare_server_config_returns: "fst (prepare_server_config e d s) = Inr (serverConfig e d)"
  unfolding prepare_server_config_def
  by (simp add: io_bind_def io_step_def io_do_def io_return_def split: prod.splits)

lemma check_config_file_existing:
  assumes lf: "cp \<noteq> logFile e" and f: "files s cp = Some txt"
    and run: "check_config_file e cp s = (r, s')"
  shows "frame e cp s s' \<and> (\<forall>config. r = Inr config \<longrightarrow> parse e txt = Inr config)"
proof -
  obtain i s0 where s0: "io_step e ''check_config_file'' s = (Inr i, s0)" and f0: "frame e cp s s0"
    by (auto simp: io_step_def addSetupStep_def frame_def calm_def)
  from f f0 have f0': "files s0 cp = Some txt" by (simp add: frame_def)
  then have ex: "existsSync cp s0" by (simp add: existsSync_def)
  from run have r: "read_existing_config e cp i s0 = (r, s')"
    by (simp add: check_config_file_def io_bind_def s0 io_test_def ex)
  from io_frameD [OF frame_read_existing [OF lf] r] f0 have "frame e cp s s'"
    by (blast intro: frame_trans)
  moreover have "\<forall>config. r = Inr config \<longrightarrow> parse e txt = Inr config"
    using read_existing_result [OF f0'] r by blast
  ultimately show ?thesis by simp
qed

lemma hard_phases_existing:
  assumes hp: "claudeConfigPath e = Inr cp" and f: "files s cp = Some txt"
    and run: "hard_phases e cp d s = (r, s')"
  shows "(\<exists>err. r = Inl err \<and> frame e cp s s') \<or>
         (\<exists>config s0. parse e txt = Inr config \<and> frame e cp s s0 \<and>
            update_config e cp config (serverConfig e d) s0 = (r, s'))"
proof -
  note lf = host_path_facts(1) [OF hp] and tf = host_path_facts(2) [OF hp]
  obtain r1 s1 where c1: "configureFilesystemAccess e s = (r1, s1)"
    by (cases "configureFilesystemAccess e s")
  have f1: "frame e cp s s1"
    by (rule io_frameD [OF frame_configureFilesystemAccess [OF lf tf] c1])
  obtain r2 s2 where c2: "check_config_directory e cp s1 = (r2, s2)"
    by (cases "check_config_directory e cp s1")
  have f2: "frame e cp s s2"
    by (rule frame_trans [OF f1 io_frameD [OF frame_check_config_directory [OF lf] c2]])
  obtain r3 s3 where c3: "check_config_file e cp s2 = (r3, s3)"
    by (cases "check_config_file e cp s2")
  from f f2 have "files s2 cp = Some txt" by (simp add: frame_def)
  from check_config_file_existing [OF lf this c3]
  have f23: "frame e cp s2 s3" and p3: "\<forall>config. r3 = Inr config \<longrightarrow> parse e txt = Inr config"
    by simp_all
  have f3: "frame e cp s s3" by (rule frame_trans [OF f2 f23])
  obtain r4 s4 where c4: "prepare_server_config e d s3 = (r4, s4)"
    by (cases "prepare_server_config e d s3")
  have r4: "r4 = Inr (serverConfig e d)"
    using prepare_server_config_returns [of e d s3] c4 by simp
  have f4: "frame e cp s s4"
    by (rule frame_trans [OF f3 io_frameD [OF frame_prepare_server_config [OF lf] c4]])
  show ?thesis
  proof (cases r1)
    case (Inl err)
    with run c1 f1 show ?thesis by (auto simp add: hard_phases_def io_bind_def)
  next
    case c1r: (Inr x1)
    show ?thesis
    proof (cases r2)
      case (Inl err)
      with run c1 c1r c2 f2 show ?thesis by (auto simp add: hard_phases_def io_bind_def)
    next
      case c2r: (Inr x2)
      show ?thesis
      proof (cases r3)
        case (Inl err)
        with run c1 c1r c2 c2r c3 f3 show ?thesis by (auto simp add: hard_phases_def io_bind_def)
      next
        case c3r: (Inr config)
        with p3 have "parse e txt = Inr config" by simp
        moreover from run c1 c1r c2 c2r c3 c3r c4 r4
        have "update_config e cp config (serverConfig e d) s4 = (r, s')"
          by (simp add: hard_phases_def io_bind_def)
        ultimately show ?thesis using f4 by blast
      qed
    qed
  qed
qed

lemma setup_result:
  "fst (setup e cp s) = (fst (hard_phases e cp (isDebugMode e) (snd (setup_prologue e s))) = Inr ())"
proof -
  obtain i s3 where p: "setup_prologue e s = (i, s3)" by (cases "setup_prologue e s")
  obtain r s4 where h: "hard_phases e cp (isDebugMode e) s3 = (r, s4)"
    by (cases "hard_phases e cp (isDebugMode e) s3")
  show ?thesis
  proof (cases r)
    case (Inl err)
    then show ?thesis by (simp add: setup_def p io_bind_def h)
  next
    case (Inr u)
    obtain s5 where a: "after_persist e cp (isDebugMode e) i s4 = (Inr True, s5)"
      using after_persist_returns [of e cp "isDebugMode e" i s4]
      by (cases "after_persist e cp (isDebugMode e) i s4") simp
    with Inr show ?thesis by (simp add: setup_def p io_bind_def h)
  qed
qed

lemma setup_existing:
  assumes hp: "claudeConfigPath e = Inr cp" and f: "files s cp = Some txt"
    and run: "setup e cp s = (ok, s')"
  shows "(\<not> ok \<and> frame e cp s s') \<or>
         (\<exists>config config'. parse e txt = Inr config \<and>
            merge config (serverConfig e (isDebugMode e)) = Inr config' \<and>
            (case write_outcome cp s of
               Ok \<Rightarrow> ok \<and> files s' cp = Some (stringify e config')
             | Fail m \<Rightarrow> \<not> ok \<and> files s' cp = Some txt
             | FailAfter k m \<Rightarrow> \<not> ok \<and> files s' cp = Some (take k (stringify e config'))))"
proof -
  note lf = host_path_facts(1) [OF hp]
  let ?d = "isDebugMode e"
  obtain i s3 where p: "setup_prologue e s = (i, s3)" by (cases "setup_prologue e s")
  have fp: "frame e cp s s3" using frame_prologue [OF lf, of s] p by simp
  then have f3: "files s3 cp = Some txt" using f by (simp add: frame_def)
  obtain r s4 where h: "hard_phases e cp ?d s3 = (r, s4)"
    by (cases "hard_phases e cp ?d s3")
  have tail: "\<exists>t. s' = t \<and> frame e cp s4 s' \<and> ok = (r = Inr ())"
  proof (cases r)
    case (Inl err)
    with run have "\<not> ok" and "s' = logToFile e (''Error updating Claude configuration: '' @ error_string err) True
                  (updateSetupStep e i ''failed'' (Some err) s4)"
      by (simp_all add: setup_def p io_bind_def h)
    with Inl lf show ?thesis
      by (auto intro!: frame_logToFile_iff simp: frame_updateSetupStep_iff frame_refl)
  next
    case (Inr u)
    obtain s5 where a: "after_persist e cp ?d i s4 = (Inr True, s5)"
      using after_persist_returns [of e cp ?d i s4]
      by (cases "after_persist e cp ?d i s4") simp
    with run Inr have "ok" "s' = s5" by (simp_all add: setup_def p io_bind_def h)
    with Inr io_frameD [OF frame_after_persist [OF lf] a] show ?thesis by simp
  qed
  then have f45: "frame e cp s4 s'" and okr: "ok = (r = Inr ())" by simp_all
  from hard_phases_existing [OF hp f3 h]
  show ?thesis
  proof
    assume "\<exists>err. r = Inl err \<and> frame e cp s3 s4"
    then have "\<not> ok" "frame e cp s s'"
      using okr fp f45 by (auto intro: frame_trans)
    then show ?thesis by simp
  next
    assume "\<exists>config s0. parse e txt = Inr config \<and> frame e cp s3 s0 \<and>
            update_config e cp config (serverConfig e ?d) s0 = (r, s4)"
    then obtain config s0 where pc: "parse e txt = Inr config" and f0: "frame e cp s3 s0"
      and u: "update_config e cp config (serverConfig e ?d) s0 = (r, s4)" by blast
    have fs0: "frame e cp s s0" by (rule frame_trans [OF fp f0])
    have wo: "write_outcome cp s0 = write_outcome cp s" by (rule frame_write_outcome [OF fs0])
    have fl0: "files s0 cp = Some txt" using fs0 f by (simp add: frame_def)
    have fl: "files s' cp = files s4 cp" using f45 by (simp add: frame_def)
    from update_config_result [OF lf u, unfolded wo fl0]
    show ?thesis
    proof
      assume "\<exists>err. merge config (serverConfig e ?d) = Inl err \<and> (\<exists>err'. r = Inl err') \<and> frame e cp s0 s4"
      then have "\<not> ok" "frame e cp s s'"
        using okr fs0 f45 by (auto intro: frame_trans)
      then show ?thesis by simp
    next
      assume "\<exists>config'. merge config (serverConfig e ?d) = Inr config' \<and>
            (case write_outcome cp s of
               Ok \<Rightarrow> r = Inr () \<and> files s4 cp = Some (stringify e config')
             | Fail m \<Rightarrow> (\<exists>err. r = Inl err) \<and> files s4 cp = Some txt
             | FailAfter k m \<Rightarrow> (\<exists>err. r = Inl err) \<and> files s4 cp = Some (take k (stringify e config')))"
      then obtain config' where m: "merge config (serverConfig e ?d) = Inr config'"
        and c: "(case write_outcome cp s of
               Ok \<Rightarrow> r = Inr () \<and> files s4 cp = Some (stringify e config')
             | Fail m \<Rightarrow> (\<exists>err. r = Inl err) \<and> files s4 cp = Some txt
             | FailAfter k m \<Rightarrow> (\<exists>err. r = Inl err) \<and> files s4 cp = Some (take k (stringify e config')))"
        by blast
      from c okr fl have "(case write_outcome cp s of
               Ok \<Rightarrow> ok \<and> files s' cp = Some (stringify e config')
             | Fail m \<Rightarrow> \<not> ok \<and> files s' cp = Some txt
             | FailAfter k m \<Rightarrow> \<not> ok \<and> files s' cp = Some (take k (stringify e config')))"
        by (auto split: outcome.splits)
      with pc m show ?thesis by blast
    qed
  qed
qed

subsection \<open>Runs in which no operation fails\<close>

lemma frame_quiet: "frame e cp s s' \<Longrightarrow> quiet cp s \<Longrightarrow> quiet cp s'"
  by (simp add: frame_def calm_def quiet_def)

lemma io_ok_return: "io_ok P (io_return x)"
  by (simp add: io_ok_def io_return_def)

lemma io_ok_test: "io_ok P (io_test Q)"
  by (simp add: io_ok_def io_test_def)

lemma io_ok_do: "(\<And>s. P s \<Longrightarrow> P (f s)) \<Longrightarrow> io_ok P (io_do f)"
  by (simp add: io_ok_def io_do_def)

lemma io_ok_bind:
  assumes "io_ok P m" "\<And>x. io_ok P (f x)"
  shows "io_ok P (io_bind m f)"
  unfolding io_ok_def
proof (intro allI impI)
  fix s assume P: "P s"
  with assms(1) obtain x where "fst (m s) = Inr x" and P1: "P (snd (m s))"
    by (auto simp: io_ok_def)
  then obtain s1 where m: "m s = (Inr x, s1)" by (cases "m s") simp
  with P1 have "P s1" by simp
  with assms(2) [of x] have "(\<exists>y. fst (f x s1) = Inr y) \<and> P (snd (f x s1))"
    by (simp add: io_ok_def)
  then show "(\<exists>y. fst (io_bind m f s) = Inr y) \<and> P (snd (io_bind m f s))"
    by (simp add: io_bind_def m)
qed

lemma io_ok_catch_ok: "io_ok P m \<Longrightarrow> io_ok P (io_catch m h)"
  unfolding io_ok_def io_catch_def
  by (auto split: prod.splits sum.splits)

lemma io_ok_catch:
  assumes "io_frame (\<lambda>s s'. P s \<longrightarrow> P s') m" "\<And>err. io_ok P (h err)"
  shows "io_ok P (io_catch m h)"
  unfolding io_ok_def
proof (intro allI impI)
  fix s assume P: "P s"
  obtain r s1 where m: "m s = (r, s1)" by (cases "m s")
  with assms(1) P have P1: "P s1" by (auto simp: io_frame_def dest: spec [of _ s])
  show "(\<exists>y. fst (io_catch m h s) = Inr y) \<and> P (snd (io_catch m h s))"
  proof (cases r)
    case (Inr x)
    with m P1 show ?thesis by (simp add: io_catch_def)
  next
    case (Inl err)
    with assms(2) [of err] P1 m show ?thesis by (simp add: io_catch_def io_ok_def)
  qed
qed

lemma io_frame_weaken: "io_frame (frame e cp) m \<Longrightarrow> io_frame (\<lambda>s s'. quiet cp s \<longrightarrow> quiet cp s') m"
  by (auto simp: io_frame_def intro: frame_quiet)

lemma io_ok_if: "io_ok P m \<Longrightarrow> io_ok P m' \<Longrightarrow> io_ok P (if b then m else m')"
  by simp

lemma ok_step: "io_ok (quiet cp) (io_step e nm)"
  by (simp add: io_ok_def io_step_def addSetupStep_def quiet_def)

lemma ok_mkdir: "p \<noteq> [] \<or> True \<Longrightarrow> io_ok (quiet cp) (mkdirSync p)"
  by (simp add: io_ok_def mkdirSync_def next_outcome_def quiet_def)

lemma ok_write: "q \<noteq> cp \<Longrightarrow> io_ok (quiet cp) (writeFileSync q txt)"
  by (simp add: io_ok_def writeFileSync_def next_outcome_def quiet_def)

lemma ok_log: "cp \<noteq> logFile e \<Longrightarrow> io_ok (quiet cp) (io_do (logToFile e m b))"
  by (rule io_ok_do) (blast intro: frame_quiet frame_logToFile)

lemma ok_update: "io_ok (quiet cp) (io_do (updateSetupStep e i st err))"
  by (rule io_ok_do) (simp add: quiet_def updateSetupStep_def)

lemma ok_console_log: "io_ok (quiet cp) (io_do (console_log m))"
  by (rule io_ok_do) (simp add: quiet_def console_log_def)

lemma ok_console_error: "io_ok (quiet cp) (io_do (console_error m))"
  by (rule io_ok_do) (simp add: quiet_def console_error_def)

lemmas ok_intros = io_ok_bind io_ok_return io_ok_test io_ok_if ok_step ok_mkdir ok_write ok_log
  ok_update ok_console_log ok_console_error

lemma io_ok_catch_frame:
  "io_frame (frame e cp) m \<Longrightarrow> (\<And>err. io_ok (quiet cp) (h err)) \<Longrightarrow> io_ok (quiet cp) (io_catch m h)"
  by (rule io_ok_catch [OF io_frame_weaken])

lemma ok_ensure_tool_dir:
  assumes lf: "cp \<noteq> logFile e"
  shows "io_ok (quiet cp) (ensure_tool_dir e)"
  unfolding ensure_tool_dir_def
  using lf by (auto intro!: ok_intros)

lemma ok_load_tool_config:
  assumes lf: "cp \<noteq> logFile e"
  shows "io_ok (quiet cp) (load_tool_config e)"
  unfolding load_tool_config_def
  using lf
  by (auto intro!: ok_intros io_ok_catch_frame [where e = e] frame_intros frame_log frame_logToFile)

lemma ok_save_tool_config:
  assumes lf: "cp \<noteq> logFile e" and tf: "cp \<noteq> toolConfigFile e"
  shows "io_ok (quiet cp) (save_tool_config e c)"
  unfolding save_tool_config_def
  using lf tf
  by (auto intro!: ok_intros io_ok_catch_ok)

lemma ok_configureFilesystemAccess:
  assumes lf: "cp \<noteq> logFile e" and tf: "cp \<noteq> toolConfigFile e"
  shows "io_ok (quiet cp) (configureFilesystemAccess e)"
  unfolding configureFilesystemAccess_def Let_def
  using lf tf
  by (auto intro!: ok_intros ok_ensure_tool_dir ok_load_tool_config ok_save_tool_config)

lemma ok_check_config_directory:
  assumes lf: "cp \<noteq> logFile e"
  shows "io_ok (quiet cp) (check_config_directory e cp)"
  unfolding check_config_directory_def
  using lf
  by (auto intro!: ok_intros io_ok_catch_ok)

lemma ok_prepare_server_config:
  assumes lf: "cp \<noteq> logFile e"
  shows "io_ok (quiet cp) (prepare_server_config e d)"
  unfolding prepare_server_config_def
  using lf
  by (auto intro!: ok_intros)

lemma io_okD: "io_ok P m \<Longrightarrow> P s \<Longrightarrow> \<exists>x s'. m s = (Inr x, s') \<and> P s'"
  by (cases "m s") (auto simp: io_ok_def dest: spec [of _ s])

lemma read_existing_ok:
  assumes "files s cp = Some txt" "parse e txt = Inr config" "quiet cp s"
  shows "\<exists>s'. read_existing_config e cp i s = (Inr config, s')"
  using assms
  unfolding read_existing_config_def
  by (simp add: io_bind_def io_catch_def io_step_def addSetupStep_def readFileSync_def
        next_outcome_def json_parse_def io_of_def io_do_def io_return_def quiet_def)

lemma check_config_file_ok:
  assumes lf: "cp \<noteq> logFile e" and f: "files s cp = Some txt" and p: "parse e txt = Inr config"
    and q: "quiet cp s"
  shows "\<exists>s'. check_config_file e cp s = (Inr config, s')"
proof -
  obtain i s0 where s0: "io_step e ''check_config_file'' s = (Inr i, s0)" and f0: "frame e cp s s0"
    by (auto simp: io_step_def addSetupStep_def frame_def calm_def)
  from f f0 have f0': "files s0 cp = Some txt" by (simp add: frame_def)
  then have ex: "existsSync cp s0" by (simp add: existsSync_def)
  from read_existing_ok [OF f0' p frame_quiet [OF f0 q]] obtain s' where
    "read_existing_config e cp i s0 = (Inr config, s')" by blast
  then show ?thesis
    by (simp add: check_config_file_def io_bind_def s0 io_test_def ex)
qed

lemma hard_phases_quiet:
  assumes hp: "claudeConfigPath e = Inr cp" and f: "files s cp = Some txt"
    and p: "parse e txt = Inr config" and q: "quiet cp s"
  shows "\<exists>s0. frame e cp s s0 \<and>
           hard_phases e cp d s = update_config e cp config (serverConfig e d) s0"
proof -
  note lf = host_path_facts(1) [OF hp] and tf = host_path_facts(2) [OF hp]
  from io_okD [OF ok_configureFilesystemAccess [OF lf tf] q]
  obtain x1 s1 where c1: "configureFilesystemAccess e s = (Inr x1, s1)" and q1: "quiet cp s1" by blast
  have f1: "frame e cp s s1"
    by (rule io_frameD [OF frame_configureFilesystemAccess [OF lf tf] c1])
  from io_okD [OF ok_check_config_directory [OF lf] q1]
  obtain x2 s2 where c2: "check_config_directory e cp s1 = (Inr x2, s2)" and q2: "quiet cp s2" by blast
  have f2: "frame e cp s s2"
    by (rule frame_trans [OF f1 io_frameD [OF frame_check_config_directory [OF lf] c2]])
  from f f2 have fl2: "files s2 cp = Some txt" by (simp add: frame_def)
  from check_config_file_ok [OF lf fl2 p q2]
  obtain s3 where c3: "check_config_file e cp s2 = (Inr config, s3)" by blast
  from check_config_file_existing [OF lf fl2 c3] have f3: "frame e cp s s3"
    using f2 by (blast intro: frame_trans)
  obtain r4 s4 where c4: "prepare_server_config e d s3 = (r4, s4)"
    by (cases "prepare_server_config e d s3")
  have r4: "r4 = Inr (serverConfig e d)"
    using prepare_server_config_returns [of e d s3] c4 by simp
  have f4: "frame e cp s s4"
    by (rule frame_trans [OF f3 io_frameD [OF frame_prepare_server_config [OF lf] c4]])
  have "hard_phases e cp d s = update_config e cp config (serverConfig e d) s4"
    by (simp add: hard_phases_def io_bind_def c1 c2 c3 c4 r4)
  with f4 show ?thesis by blast
qed

subsection \<open>A run without a host config\<close>

lemma frame_calm: "frame e cp s s' \<Longrightarrow> calm s s'"
  by (simp add: frame_def)

lemma calm_refl: "calm s s"
  by (simp add: calm_def)

lemma calm_trans: "calm s s1 \<Longrightarrow> calm s1 s2 \<Longrightarrow> calm s s2"
  by (simp add: calm_def)

lemma calm_fault_free: "calm s s' \<Longrightarrow> fault_free s \<Longrightarrow> fault_free s'"
  by (simp add: calm_def fault_free_def)

lemma fault_free_quiet: "fault_free s \<Longrightarrow> quiet cp s"
  by (simp add: fault_free_def quiet_def)

lemma fault_free_write_outcome: "fault_free s \<Longrightarrow> write_outcome cp s = Ok"
  by (simp add: fault_free_def write_outcome_def next_outcome_def)

lemma steps_logToFile: "setupSteps (logToFile e m b s) = setupSteps s"
  by (auto simp: logToFile_def io_bind_def mkdirSync_def appendFileSync_def next_outcome_def
        io_return_def io_do_def console_log_def console_error_def Let_def
        split: prod.splits sum.splits outcome.splits list.splits if_splits)

lemma create_default_result:
  assumes lf: "cp \<noteq> logFile e" and run: "create_default_config e cp i s = (r, s')"
  shows "calm s s' \<and>
         (case write_outcome cp s of
            Ok \<Rightarrow> r = Inr (defaultConfig e) \<and> files s' cp = Some (stringify e (defaultConfig e))
                  \<and> (i < length (setupSteps s) \<longrightarrow>
                       length (setupSteps s') = length (setupSteps s) \<and>
                       status (setupSteps s' ! i) = ''created'')
          | Fail m \<Rightarrow> (\<exists>err. r = Inl err) \<and> files s' cp = files s cp
          | FailAfter k m \<Rightarrow> (\<exists>err. r = Inl err)
                  \<and> files s' cp = Some (take k (stringify e (defaultConfig e))))"
proof -
  define s1 where "s1 = logToFile e ''Creating default config file...'' False
                          (logToFile e (''Claude config file not found at: '' @ path_text e cp) False s)"
  have f1: "frame e cp s s1"
    unfolding s1_def by (intro frame_logToFile_iff frame_logToFile lf)
  have st1: "setupSteps s1 = setupSteps s" by (simp add: s1_def steps_logToFile)
  obtain rw s2 where w: "writeFileSync cp (stringify e (defaultConfig e)) s1 = (rw, s2)"
    by (cases "writeFileSync cp (stringify e (defaultConfig e)) s1")
  have st2: "setupSteps s2 = setupSteps s1" and c12: "calm s1 s2"
    using w by (auto simp: writeFileSync_def next_outcome_def calm_def split: list.splits outcome.splits)
  have bw: "io_bind (writeFileSync cp (stringify e (defaultConfig e))) f s1 =
              (case rw of Inl err \<Rightarrow> (Inl err, s2) | Inr x \<Rightarrow> f x s2)" for f :: "unit \<Rightarrow> json io"
    by (simp add: io_bind_def w split: sum.splits)
  note wr = writeFileSync_result [OF w, unfolded frame_write_outcome [OF f1] frame_files [OF f1]]
  have body: "create_default_config e cp i s =
     io_catch
       (io_bind (writeFileSync cp (stringify e (defaultConfig e))) (\<lambda>_.
        io_bind (io_do (logToFile e ''Default config file created.'' False)) (\<lambda>_.
        io_bind (io_do (updateSetupStep e i ''created'' None)) (\<lambda>_.
        io_return (defaultConfig e)))))
       (\<lambda>writeError.
        io_bind (io_do (updateSetupStep e i ''create_failed'' (Some writeError))) (\<lambda>_.
        io_throw (Error (''Failed to create config file: '' @ emessage writeError)))) s1"
    by (simp add: create_default_config_def io_bind_do s1_def)
  have "(\<exists>err. rw = Inl err \<and> (\<exists>err'. r = Inl err') \<and> s' = updateSetupStep e i ''create_failed'' (Some err) s2)
      \<or> (rw = Inr () \<and> r = Inr (defaultConfig e)
          \<and> s' = updateSetupStep e i ''created'' None (logToFile e ''Default config file created.'' False s2))"
    using run unfolding body
    by (cases rw) (auto simp: io_catch_def bw io_bind_do io_throw_def io_return_def)
  then show ?thesis
  proof
    assume "\<exists>err. rw = Inl err \<and> (\<exists>err'. r = Inl err') \<and> s' = updateSetupStep e i ''create_failed'' (Some err) s2"
    then obtain err where rw: "rw = Inl err" and r: "\<exists>err'. r = Inl err'"
      and s': "s' = updateSetupStep e i ''create_failed'' (Some err) s2" by blast
    have "calm s2 s'" by (simp add: s' calm_def updateSetupStep_def)
    with c12 frame_calm [OF f1] have "calm s s'" by (blast intro: calm_trans)
    moreover have "files s' cp = files s2 cp" by (simp add: s' files_updateSetupStep)
    ultimately show ?thesis using wr rw r by (auto split: outcome.splits)
  next
    assume a: "rw = Inr () \<and> r = Inr (defaultConfig e)
          \<and> s' = updateSetupStep e i ''created'' None (logToFile e ''Default config file created.'' False s2)"
    then have s': "s' = updateSetupStep e i ''created'' None (logToFile e ''Default config file created.'' False s2)"
      by simp
    have "calm s2 s'"
      using frame_calm [OF frame_logToFile [OF lf, of s2 "''Default config file created.''" False]]
      by (simp add: s' calm_def updateSetupStep_def)
    with c12 frame_calm [OF f1] have "calm s s'" by (blast intro: calm_trans)
    moreover have "files s' cp = files s2 cp" by (simp add: s' files_updateSetupStep files_logToFile lf)
    moreover have "i < length (setupSteps s) \<longrightarrow>
                       length (setupSteps s') = length (setupSteps s) \<and>
                       status (setupSteps s' ! i) = ''created''"
      by (simp add: s' updateSetupStep_def steps_logToFile st2 st1)
    ultimately show ?thesis using wr a by (auto split: outcome.splits)
  qed
qed

lemma check_config_file_absent:
  assumes lf: "cp \<noteq> logFile e" and ab: "\<not> existsSync cp s"
    and run: "check_config_file e cp s = (r, s')"
  shows "calm s s' \<and>
         (case write_outcome cp s of
            Ok \<Rightarrow> r = Inr (defaultConfig e) \<and> files s' cp = Some (stringify e (defaultConfig e))
                  \<and> status (setupSteps s' ! length (setupSteps s)) = ''created''
          | Fail m \<Rightarrow> (\<exists>err. r = Inl err) \<and> files s' cp = files s cp
          | FailAfter k m \<Rightarrow> (\<exists>err. r = Inl err)
                  \<and> files s' cp = Some (take k (stringify e (defaultConfig e))))"
proof -
  define s0 where "s0 = snd (addSetupStep e ''check_config_file'' ''started'' None s)"
  have s0: "io_step e ''check_config_file'' s = (Inr (length (setupSteps s)), s0)"
    by (simp add: io_step_def addSetupStep_def s0_def)
  have f0: "frame e cp s s0"
    by (auto simp: s0_def addSetupStep_def frame_def calm_def)
  have l0: "length (setupSteps s) < length (setupSteps s0)"
    by (simp add: s0_def addSetupStep_def)
  have ex: "\<not> existsSync cp s0"
    using ab by (simp add: existsSync_def s0_def addSetupStep_def)
  from run have r: "create_default_config e cp (length (setupSteps s)) s0 = (r, s')"
    by (simp add: check_config_file_def io_bind_def s0 io_test_def ex)
  from create_default_result [OF lf r] l0 frame_calm [OF f0]
  show ?thesis
    by (auto simp: frame_write_outcome [OF f0] frame_files [OF f0] split: outcome.splits
             intro: calm_trans)
qed

subsection \<open>Whole runs\<close>

lemma setup_tail:
  assumes lf: "cp \<noteq> logFile e" and p: "setup_prologue e s = (i, s3)"
    and h: "hard_phases e cp (isDebugMode e) s3 = (r, s4)"
  shows "\<exists>s'. setup e cp s = (r = Inr (), s') \<and> frame e cp s4 s'"
proof (cases r)
  case (Inl err)
  then have "setup e cp s = (False, logToFile e (''Error updating Claude configuration: '' @ error_string err) True
                  (updateSetupStep e i ''failed'' (Some err) s4))"
    by (simp add: setup_def p io_bind_def h)
  with Inl lf show ?thesis
    by (auto intro!: frame_logToFile_iff simp: frame_updateSetupStep_iff frame_refl)
next
  case (Inr u)
  obtain s5 where a: "after_persist e cp (isDebugMode e) i s4 = (Inr True, s5)"
    using after_persist_returns [of e cp "isDebugMode e" i s4]
    by (cases "after_persist e cp (isDebugMode e) i s4") simp
  with Inr have "setup e cp s = (True, s5)" by (simp add: setup_def p io_bind_def h)
  with Inr io_frameD [OF frame_after_persist [OF lf] a] show ?thesis by simp
qed

lemma setup_existing_quiet:
  assumes hp: "claudeConfigPath e = Inr cp" and f: "files s cp = Some txt"
    and pc: "parse e txt = Inr config"
    and m: "merge config (serverConfig e (isDebugMode e)) = Inr config'"
    and q: "quiet cp s"
  shows "(case write_outcome cp s of
            Ok \<Rightarrow> fst (setup e cp s) \<and> files (snd (setup e cp s)) cp = Some (stringify e config')
          | Fail msg \<Rightarrow> \<not> fst (setup e cp s) \<and> files (snd (setup e cp s)) cp = Some txt
          | FailAfter k msg \<Rightarrow> \<not> fst (setup e cp s)
               \<and> files (snd (setup e cp s)) cp = Some (take k (stringify e config')))"
proof -
  note lf = host_path_facts(1) [OF hp]
  let ?d = "isDebugMode e"
  obtain i s3 where p: "setup_prologue e s = (i, s3)" by (cases "setup_prologue e s")
  have fp: "frame e cp s s3" using frame_prologue [OF lf, of s] p by simp
  then have f3: "files s3 cp = Some txt" using f by (simp add: frame_def)
  have q3: "quiet cp s3" by (rule frame_quiet [OF fp q])
  from hard_phases_quiet [OF hp f3 pc q3, of ?d] obtain s0 where
    f0: "frame e cp s3 s0" and h: "hard_phases e cp ?d s3 = update_config e cp config (serverConfig e ?d) s0"
    by blast
  obtain r s4 where u: "update_config e cp config (serverConfig e ?d) s0 = (r, s4)"
    by (cases "update_config e cp config (serverConfig e ?d) s0")
  have fs0: "frame e cp s s0" by (rule frame_trans [OF fp f0])
  have wo: "write_outcome cp s0 = write_outcome cp s" by (rule frame_write_outcome [OF fs0])
  have fl0: "files s0 cp = Some txt" using fs0 f by (simp add: frame_def)
  from setup_tail [OF lf p h [unfolded u]] obtain s' where
    s: "setup e cp s = (r = Inr (), s')" and f45: "frame e cp s4 s'" by blast
  have fl: "files s' cp = files s4 cp" using f45 by (simp add: frame_def)
  from update_config_result [OF lf u, unfolded wo fl0] m
  have "(case write_outcome cp s of
               Ok \<Rightarrow> r = Inr () \<and> files s4 cp = Some (stringify e config')
             | Fail m \<Rightarrow> (\<exists>err. r = Inl err) \<and> files s4 cp = Some txt
             | FailAfter k m \<Rightarrow> (\<exists>err. r = Inl err) \<and> files s4 cp = Some (take k (stringify e config')))"
    by auto
  then show ?thesis
    by (auto simp: s fl split: outcome.splits)
qed

lemma merge_default: "merge (defaultConfig e) (serverConfig e (isDebugMode e)) = Inr (merged_default e)"
  by (simp add: merge_def merge_flag_def defaultConfig_def merged_default_def server_name_def legacy_name_def)

lemma not_in_own_ancestors: "cp \<noteq> [] \<Longrightarrow> cp \<notin> ancestors (butlast cp)"
proof
  assume ne: "cp \<noteq> []" and "cp \<in> ancestors (butlast cp)"
  then obtain n where "cp = take n (butlast cp)" by (auto simp: ancestors_def)
  then have "length cp = length (take n (butlast cp))" by simp
  also have "\<dots> \<le> length cp - 1" by simp
  finally have "length cp \<le> length cp - 1" .
  moreover from ne have "0 < length cp" by simp
  ultimately show False by linarith
qed

lemma setup_absent_fault_free:
  assumes hp: "claudeConfigPath e = Inr cp" and ab: "\<not> existsSync cp s"
    and na: "cp \<notin> ancestors (toolDir e)" and ff: "fault_free s"
  shows "fst (setup e cp s) \<and> files (snd (setup e cp s)) cp = Some (stringify e (merged_default e))"
proof -
  note lf = host_path_facts(1) [OF hp] and tf = host_path_facts(2) [OF hp]
    and ne = host_path_facts(3) [OF hp]
  let ?d = "isDebugMode e"
  obtain i s3 where p: "setup_prologue e s = (i, s3)" by (cases "setup_prologue e s")
  have fp: "frame e cp s s3" using frame_prologue [OF lf, of s] p by simp
  have q3: "quiet cp s3" by (rule frame_quiet [OF fp fault_free_quiet [OF ff]])
  from io_okD [OF ok_configureFilesystemAccess [OF lf tf] q3]
  obtain x1 s1 where c1: "configureFilesystemAccess e s3 = (Inr x1, s1)" and q1: "quiet cp s1" by blast
  have f1: "frame e cp s s1"
    by (rule frame_trans [OF fp io_frameD [OF frame_configureFilesystemAccess [OF lf tf] c1]])
  from io_okD [OF ok_check_config_directory [OF lf] q1]
  obtain x2 s2 where c2: "check_config_directory e cp s1 = (Inr x2, s2)" by blast
  have f2: "frame e cp s s2"
    by (rule frame_trans [OF f1 io_frameD [OF frame_check_config_directory [OF lf] c2]])
  have ff2: "fault_free s2" by (rule calm_fault_free [OF frame_calm [OF f2] ff])
  have ab2: "\<not> existsSync cp s2"
    using ab f2 na not_in_own_ancestors [OF ne] by (auto simp: existsSync_def frame_def)
  obtain r3 s4 where c3: "check_config_file e cp s2 = (r3, s4)" by (cases "check_config_file e cp s2")
  from check_config_file_absent [OF lf ab2 c3] fault_free_write_outcome [OF ff2]
  have r3: "r3 = Inr (defaultConfig e)" and c24: "calm s2 s4" by simp_all
  have ff4: "fault_free s4" by (rule calm_fault_free [OF c24 ff2])
  obtain r5 s5 where c5: "prepare_server_config e ?d s4 = (r5, s5)"
    by (cases "prepare_server_config e ?d s4")
  have r5: "r5 = Inr (serverConfig e ?d)"
    using prepare_server_config_returns [of e ?d s4] c5 by simp
  have f45: "frame e cp s4 s5"
    by (rule io_frameD [OF frame_prepare_server_config [OF lf] c5])
  have ff5: "fault_free s5" by (rule calm_fault_free [OF frame_calm [OF f45] ff4])
  obtain r s6 where u: "update_config e cp (defaultConfig e) (serverConfig e ?d) s5 = (r, s6)"
    by (cases "update_config e cp (defaultConfig e) (serverConfig e ?d) s5")
  have h: "hard_phases e cp ?d s3 = (r, s6)"
    by (simp add: hard_phases_def io_bind_def c1 c2 c3 r3 c5 r5 u)
  from update_config_result [OF lf u] merge_default [of e] fault_free_write_outcome [OF ff5]
  have r: "r = Inr ()" and fl6: "files s6 cp = Some (stringify e (merged_default e))"
    by auto
  from setup_tail [OF lf p h] obtain s' where
    s: "setup e cp s = (r = Inr (), s')" and f67: "frame e cp s6 s'" by blast
  show ?thesis
    using r fl6 f67 by (simp add: s frame_def)
qed

subsection \<open>The step record of the restart\<close>

lemma plan_exec_logToFile: "plan (logToFile e m b s) (Exec c) = plan s (Exec c)"
  by (auto simp: logToFile_def io_bind_def mkdirSync_def appendFileSync_def next_outcome_def
        io_return_def io_do_def console_log_def console_error_def Let_def
        split: prod.splits sum.splits outcome.splits list.splits if_splits)

lemma execAsync_steps:
  assumes "execAsync e c s = (r, s')" "j < length (setupSteps s)"
  shows "keeps_at j s s'" "length (setupSteps s') = Suc (length (setupSteps s))"
  using assms
  by (auto simp: execAsync_def addSetupStep_def next_outcome_def updateSetupStep_def keeps_at_def
        nth_append nth_list_update
        split: prod.splits outcome.splits list.splits)

lemma execAsync_result:
  assumes "execAsync e c s = (r, s')"
  shows "(r = Inr ()) = (fst (next_outcome (Exec (actualCommand e c)) s) = Ok)"
  using assms
  by (auto simp: execAsync_def addSetupStep_def next_outcome_def
        split: prod.splits outcome.splits list.splits)

lemma keeps_at_update:
  "i \<noteq> j \<Longrightarrow> keeps_at j s s1 \<Longrightarrow> keeps_at j s (updateSetupStep e i st err s1)"
  by (simp add: keeps_at_def updateSetupStep_def)

lemma keeps_at_log: "keeps_at j s s1 \<Longrightarrow> keeps_at j s (logToFile e m b s1)"
  by (simp add: keeps_at_def steps_logToFile)

lemma keeps_at_trans:
  "keeps_at j s s1 \<Longrightarrow> keeps_at j s1 s2 \<Longrightarrow> keeps_at j s s2"
  by (simp add: keeps_at_def)

lemma keeps_at_add:
  "j < length (setupSteps s) \<Longrightarrow> keeps_at j s (snd (addSetupStep e nm st err s))"
  by (simp add: keeps_at_def addSetupStep_def nth_append)

lemma start_keeps:
  assumes run: "start_claude_process e i s = (r, s')" and j: "j < length (setupSteps s)" and ij: "i \<noteq> j"
  shows "keeps_at j s s'"
proof -
  define s0 where "s0 = snd (addSetupStep e ''start_claude_process'' ''started'' None s)"
  define k where "k = length (setupSteps s)"
  have a: "io_step e ''start_claude_process'' s = (Inr k, s0)"
    by (simp add: io_step_def addSetupStep_def s0_def k_def)
  have k0: "keeps_at j s s0" unfolding s0_def by (rule keeps_at_add [OF j])
  have jk: "k \<noteq> j" using j by (simp add: k_def)
  have j0: "j < length (setupSteps s0)" using k0 by (simp add: keeps_at_def)
  have body: "start_claude_process e i s =
     io_catch
       (io_bind
          (if platform e = ''win32'' then
             io_bind (io_do (logToFile e ''Windows: Claude restart skipped - requires manual restart'' False)) (\<lambda>_.
             io_do (updateSetupStep e k ''skipped'' None))
           else if platform e = ''darwin'' then
             io_bind (execAsync e (''open -a '' @ [dquote] @ ''Claude'' @ [dquote])) (\<lambda>_.
             io_bind (io_do (updateSetupStep e k ''completed'' None)) (\<lambda>_.
             io_do (logToFile e ''Claude has been restarted.'' False)))
           else if platform e = ''linux'' then
             io_bind (execAsync e ''claude'') (\<lambda>_.
             io_bind (io_do (logToFile e ''Claude has been restarted.'' False)) (\<lambda>_.
             io_do (updateSetupStep e k ''completed'' None)))
           else io_return ()) (\<lambda>_.
        io_do (updateSetupStep e i ''completed'' None)))
       (\<lambda>startError.
        io_bind (io_do (updateSetupStep e k ''failed'' (Some startError))) (\<lambda>_.
        io_throw startError)) s0"
    by (simp add: start_claude_process_def io_bind_def a)
  consider (win) "platform e = ''win32''" | (mac) "platform e = ''darwin''"
    | (lin) "platform e = ''linux''"
    | (other) "platform e \<noteq> ''win32''" "platform e \<noteq> ''darwin''" "platform e \<noteq> ''linux''"
    by blast
  then have "keeps_at j s0 s'"
  proof cases
    case win
    with run have "s' = updateSetupStep e i ''completed'' None (updateSetupStep e k ''skipped'' None
                      (logToFile e ''Windows: Claude restart skipped - requires manual restart'' False s0))"
      by (simp add: body io_catch_def io_bind_def io_do_def)
    then show ?thesis
      using j0 ij jk by (simp add: keeps_at_def updateSetupStep_def steps_logToFile)
  next
    case mac
    obtain rx sx where x: "execAsync e (''open -a '' @ [dquote] @ ''Claude'' @ [dquote]) s0 = (rx, sx)"
      by (cases "execAsync e (''open -a '' @ [dquote] @ ''Claude'' @ [dquote]) s0")
    note kx = execAsync_steps(1) [OF x j0]
    show ?thesis
    proof (cases rx)
      case (Inl err)
      with run mac x have "s' = updateSetupStep e k ''failed'' (Some err) sx"
        by (simp add: body io_catch_def io_bind_def io_do_def io_throw_def)
      with kx jk show ?thesis by (simp add: keeps_at_update)
    next
      case (Inr u)
      with run mac x have "s' = updateSetupStep e i ''completed'' None
              (logToFile e ''Claude has been restarted.'' False (updateSetupStep e k ''completed'' None sx))"
        by (simp add: body io_catch_def io_bind_def io_do_def)
      with kx jk ij show ?thesis by (simp add: keeps_at_update keeps_at_log)
    qed
  next
    case lin
    obtain rx sx where x: "execAsync e ''claude'' s0 = (rx, sx)"
      by (cases "execAsync e ''claude'' s0")
    note kx = execAsync_steps(1) [OF x j0]
    show ?thesis
    proof (cases rx)
      case (Inl err)
      with run lin x have "s' = updateSetupStep e k ''failed'' (Some err) sx"
        by (simp add: body io_catch_def io_bind_def io_do_def io_throw_def)
      with kx jk show ?thesis by (simp add: keeps_at_update)
    next
      case (Inr u)
      with run lin x have "s' = updateSetupStep e i ''completed'' None
              (updateSetupStep e k ''completed'' None (logToFile e ''Claude has been restarted.'' False sx))"
        by (simp add: body io_catch_def io_bind_def io_do_def)
      with kx jk ij show ?thesis by (simp add: keeps_at_update keeps_at_log)
    qed
  next
    case other
    with run have "s' = updateSetupStep e i ''completed'' None s0"
      by (simp add: body io_catch_def io_bind_def io_return_def io_do_def)
    then show ?thesis
      using j0 ij by (simp add: keeps_at_def updateSetupStep_def)
  qed
  with k0 show ?thesis by (rule keeps_at_trans)
qed

lemma kill_records:
  assumes kf: "kill_fails e s" and run: "kill_claude_process e s = (r, s')"
  shows "r = Inr () \<and> length (setupSteps s) < length (setupSteps s')
       \<and> step (setupSteps s' ! length (setupSteps s)) = ''kill_claude_process''
       \<and> status (setupSteps s' ! length (setupSteps s)) = ''no_process_found''"
proof -
  obtain c where kc: "kill_command e = Some c"
    and ko: "fst (next_outcome (Exec (actualCommand e c)) s) \<noteq> Ok"
    using kf by (auto simp: kill_fails_def split: option.splits)
  define k where "k = length (setupSteps s)"
  define s0 where "s0 = snd (addSetupStep e ''kill_claude_process'' ''started'' None s)"
  have a: "io_step e ''kill_claude_process'' s = (Inr k, s0)"
    by (simp add: io_step_def addSetupStep_def s0_def k_def)
  have k0: "k < length (setupSteps s0)" "step (setupSteps s0 ! k) = ''kill_claude_process''"
    by (simp_all add: s0_def addSetupStep_def k_def)
  have ko0: "fst (next_outcome (Exec (actualCommand e c)) s0) \<noteq> Ok"
    using ko by (simp add: s0_def addSetupStep_def next_outcome_def split: list.splits)
  obtain rx sx where x: "execAsync e c s0 = (rx, sx)" by (cases "execAsync e c s0")
  from execAsync_result [OF x] ko0 obtain err where rx: "rx = Inl err" by (cases rx) auto
  note kx = execAsync_steps(1) [OF x k0(1)]
  from run have "r = Inr ()" and s': "s' = logToFile e ''Claude process not found or already terminated'' False
                      (updateSetupStep e k ''no_process_found'' (Some err) sx)"
    by (simp_all add: kill_claude_process_def io_bind_def a kc x rx io_catch_def io_do_def)
  moreover have "k < length (setupSteps s')" "step (setupSteps s' ! k) = ''kill_claude_process''"
    "status (setupSteps s' ! k) = ''no_process_found''"
    using kx k0 by (simp_all add: s' steps_logToFile updateSetupStep_def keeps_at_def)
  ultimately show ?thesis by (simp add: k_def)
qed

lemma kill_recorded:
  assumes "kill_fails e s"
  shows "Suc (length (setupSteps s)) < length (setupSteps (snd (restartClaude e s)))
       \<and> step (setupSteps (snd (restartClaude e s)) ! Suc (length (setupSteps s))) = ''kill_claude_process''
       \<and> status (setupSteps (snd (restartClaude e s)) ! Suc (length (setupSteps s))) = ''no_process_found''"
proof -
  define n where "n = length (setupSteps s)"
  define s0 where "s0 = snd (addSetupStep e ''restart_claude'' ''started'' None s)"
  have a: "io_step e ''restart_claude'' s = (Inr n, s0)"
    by (simp add: io_step_def addSetupStep_def s0_def n_def)
  define s1 where "s1 = logToFile e (''Attempting to restart Claude on '' @ platform e) False s0"
  have l1: "length (setupSteps s1) = Suc n"
    by (simp add: s1_def s0_def steps_logToFile addSetupStep_def n_def)
  have kf1: "kill_fails e s1"
    using assms
    by (simp add: kill_fails_def s1_def s0_def next_outcome_def plan_exec_logToFile addSetupStep_def
          split: option.splits list.splits)
  obtain r2 s2 where k: "kill_claude_process e s1 = (r2, s2)" by (cases "kill_claude_process e s1")
  from kill_records [OF kf1 k] l1
  have r2: "r2 = Inr ()" and l2: "Suc n < length (setupSteps s2)"
    and st2: "step (setupSteps s2 ! Suc n) = ''kill_claude_process''"
             "status (setupSteps s2 ! Suc n) = ''no_process_found''"
    by simp_all
  obtain r3 s3 where st: "start_claude_process e n s2 = (r3, s3)" by (cases "start_claude_process e n s2")
  from start_keeps [OF st l2] have k3: "keeps_at (Suc n) s2 s3" by simp
  have body: "restartClaude e s =
     io_catch
       (io_bind (kill_claude_process e) (\<lambda>_. start_claude_process e n))
       (\<lambda>err.
        io_bind (io_do (updateSetupStep e n ''failed'' (Some err))) (\<lambda>_.
        io_bind (io_do (logToFile e
                   (''Failed to restart Claude: '' @ error_string err @ ''. Please restart it manually.'') True)) (\<lambda>_.
        io_do (logToFile e
                 ''If Claude Desktop is not installed use this link to download https://claude.ai/download''
                 True)))) s1"
    by (simp add: restartClaude_def io_bind_def a io_catch_def io_do_def s1_def)
  have "keeps_at (Suc n) s3 (snd (restartClaude e s))"
  proof (cases r3)
    case (Inr u)
    then have "snd (restartClaude e s) = s3"
      by (simp add: body io_bind_def io_catch_def k r2 st)
    with k3 show ?thesis by (simp add: keeps_at_def)
  next
    case (Inl err)
    then have "snd (restartClaude e s) =
        logToFile e ''If Claude Desktop is not installed use this link to download https://claude.ai/download'' True
         (logToFile e (''Failed to restart Claude: '' @ error_string err @ ''. Please restart it manually.'') True
           (updateSetupStep e n ''failed'' (Some err) s3))"
      by (simp add: body io_bind_def io_catch_def io_do_def k r2 st)
    with k3 show ?thesis by (simp add: keeps_at_def steps_logToFile updateSetupStep_def)
  qed
  with k3 st2 show ?thesis by (simp add: keeps_at_def n_def)
qed

subsection \<open>The tool config file\<close>








subsection \<open>Logging a fatal error\<close>

lemma setup_failure:
  assumes p: "setup_prologue e s = (i, s3)"
    and h: "hard_phases e cp (isDebugMode e) s3 = (Inl err, s4)"
  shows "setup e cp s =
           (False, logToFile e (''Error updating Claude configuration: '' @ error_string err) True
                     (updateSetupStep e i ''failed'' (Some err) s4))"
  by (simp add: setup_def p io_bind_def h)

lemma logToFile_console:
  "console (logToFile e m True s) = console s @ [(Err, m)] \<or>
   (\<exists>x. console (logToFile e m True s) = console s @ [(Out, m), (Err, ''Error writing to log: '' @ error_string x)])"
  by (auto simp: logToFile_def io_bind_def mkdirSync_def appendFileSync_def next_outcome_def
        io_return_def io_do_def console_log_def console_error_def Let_def
        split: prod.splits sum.splits outcome.splits list.splits if_splits)

lemma logToFile_appends:
  assumes "plan s (AppendFile (logFile e)) = []" "existsSync (toolDir e) s \<or> plan s (Mkdir (toolDir e)) = []"
  shows "files (logToFile e m b s) (logFile e) =
           Some ((case files s (logFile e) of None \<Rightarrow> [] | Some t \<Rightarrow> t) @ logMessage e m b)"
  using assms
  by (auto simp: logToFile_def io_bind_def mkdirSync_def appendFileSync_def next_outcome_def
        io_return_def io_do_def console_log_def console_error_def Let_def
        split: prod.splits sum.splits outcome.splits list.splits if_splits)

subsection \<open>The example runtime\<close>

lemma example_path: "claudeConfigPath example_env = Inr example_cp"
  by (simp add: claudeConfigPath_def example_env_def example_cp_def)

lemma example_server_entry: "serverConfig example_env (isDebugMode example_env) = example_entry"
  by (simp add: serverConfig_def isDebugMode_def isNpx_def example_env_def indexPath_def
        path_text_def isWindows_def example_entry_def)

lemma example_parse_legacy: "parse example_env (json_text legacy_config) = Inr legacy_config"
  by (simp add: example_env_def example_parse_def)

lemma example_merge: "merge legacy_config example_entry = Inr merged_legacy"
  by (simp add: merge_def merge_flag_def legacy_config_def merged_legacy_def
        legacy_name_def server_name_def)


lemma example_files:
  "files installed_state example_cp = Some (json_text legacy_config)"
  "files full_disk_state example_cp = Some (json_text legacy_config)"
  "files readonly_state example_cp = Some (json_text legacy_config)"
  by (simp_all add: full_disk_state_def readonly_state_def installed_state_def fresh_state_def)




lemma fresh_absent: "\<not> existsSync example_cp fresh_state"
  by (simp add: existsSync_def fresh_state_def example_cp_def)

lemma fresh_fault_free: "fault_free fresh_state"
  by (simp add: fault_free_def fresh_state_def)


lemma example_merged_default:
  "merged_default example_env
     = JObj [(''serverConfig'', JObj [(''command'', JStr ''/bin/sh''), (''args'', JArr [JStr ''-c''])]),
             (''mcpServers'', JObj [(''desktop-commander'', example_entry)])]"
  by (simp add: merged_default_def example_server_entry) (simp add: isWindows_def example_env_def)

lemma example_not_ancestor: "example_cp \<notin> ancestors (toolDir example_env)"
  by (simp add: ancestors_def toolDir_def example_env_def example_cp_def)

lemma locked_failure:
  "fst (hard_phases example_env example_cp (isDebugMode example_env)
          (snd (setup_prologue example_env locked_state))) = Inl (Error denied)"
  by (simp add: hard_phases_def configureFilesystemAccess_def ensure_tool_dir_def io_bind_def io_test_def
       existsSync_def toolDir_def mkdirSync_def next_outcome_def setup_prologue_def addSetupStep_def
       example_env_def locked_state_def fresh_state_def isDebugMode_def console_log_def)

lemma denied_string:
  "error_string (Error denied)
     = ''Error: EACCES: permission denied, mkdir /home/u/.claude-server-commander''"
  by (simp add: error_string_def Error_def denied_def)

lemma denied_holds_path:
  "holds_path ''Error updating Claude configuration: Error: EACCES: permission denied, mkdir /home/u/.claude-server-commander''"
  unfolding holds_path_def by code_simp

lemma denied_sanitized:
  "message (sanitizeError (ErrorObject (Error denied) None))
     = ''Error: EACCES: permission denied, mkdir [PATH]-server-commander''"
  unfolding denied_def by code_simp

lemma locked_console:
  "console (snd (setup example_env example_cp locked_state))
     = [(Out, [newline]), (Out, [newline]),
        (Err, ''Error updating Claude configuration: Error: EACCES: permission denied, mkdir /home/u/.claude-server-commander'')]"
  by code_simp

lemma locked_log:
  "files (snd (setup example_env example_cp locked_state)) (logFile example_env)
     = Some (''[2025-01-01T00:00:00.000Z] ERROR: Error updating Claude configuration: Error: EACCES: permission denied, mkdir /home/u/.claude-server-commander'' @ [newline])"
  by code_simp





section \<open>The claims\<close>

subsection \<open>C1: persisting the host config\<close>




subsection \<open>C2: what a run preserves\<close>

text \<open>
  C2: for every host config on disk, a run that succeeds persists a config that agrees
  with the one on disk on every top-level key other than \<^verbatim>\<open>mcpServers\<close> and on every
  entry under \<^verbatim>\<open>mcpServers\<close> other than the one of the new server name and the legacy one.
\<close>

theorem run_preserves_other_keys:
  assumes "claudeConfigPath e = Inr cp" and "files s cp = Some txt"
    and "parse e txt = Inr config" and "fst (setup e cp s)"
  shows "\<exists>config'. files (snd (setup e cp s)) cp = Some (stringify e config')
           \<and> (\<forall>k. k \<noteq> ''mcpServers'' \<longrightarrow> member config' k = member config k)
           \<and> (\<forall>n. n \<noteq> server_name \<longrightarrow> n \<noteq> legacy_name \<longrightarrow>
                  map_of (servers config') n = map_of (servers config) n)"
proof -
  obtain ok s' where run: "setup e cp s = (ok, s')" by (cases "setup e cp s")
  with assms(4) have ok: "ok" by simp
  from setup_existing [OF assms(1,2) run] ok assms(3) obtain config' where
    m: "merge config (serverConfig e (isDebugMode e)) = Inr config'"
    and w: "case write_outcome cp s of
               Ok \<Rightarrow> ok \<and> files s' cp = Some (stringify e config')
             | Fail m \<Rightarrow> \<not> ok \<and> files s' cp = Some txt
             | FailAfter k m \<Rightarrow> \<not> ok \<and> files s' cp = Some (take k (stringify e config'))"
    by auto
  from w ok have "files s' cp = Some (stringify e config')"
    by (cases "write_outcome cp s") simp_all
  with merge_keeps_others [OF m] show ?thesis by (auto simp: run)
qed

theorem run_preserves_other_keys_witness:
  "claudeConfigPath example_env = Inr example_cp
   \<and> files installed_state example_cp = Some (json_text legacy_config)
   \<and> parse example_env (json_text legacy_config) = Inr legacy_config
   \<and> fst (setup example_env example_cp installed_state)
   \<and> (\<exists>config'. files (snd (setup example_env example_cp installed_state)) example_cp
                    = Some (json_text config')
         \<and> member config' ''other'' = Some (JNum 1)
         \<and> map_of (servers config') ''unrelated'' = Some (JObj [(''command'', JStr ''other-tool'')]))"
proof -
  have q: "quiet example_cp installed_state"
    by (simp add: quiet_def installed_state_def fresh_state_def)
  have wo: "write_outcome example_cp installed_state = Ok"
    by (simp add: write_outcome_def next_outcome_def installed_state_def fresh_state_def)
  from setup_existing_quiet [OF example_path example_files(1) example_parse_legacy
      example_merge [folded example_server_entry] q]
  have ok: "fst (setup example_env example_cp installed_state)"
    by (simp add: wo)
  have u: "map_of (servers legacy_config) ''unrelated'' = Some (JObj [(''command'', JStr ''other-tool'')])"
    by (simp add: legacy_config_def servers_def member_def)
  have k: "member legacy_config ''other'' = Some (JNum 1)"
    by (simp add: legacy_config_def member_def)
  from run_preserves_other_keys [OF example_path example_files(1) example_parse_legacy ok]
  obtain config' where
    "files (snd (setup example_env example_cp installed_state)) example_cp
       = Some (stringify example_env config')"
    "\<forall>k. k \<noteq> ''mcpServers'' \<longrightarrow> member config' k = member legacy_config k"
    "\<forall>n. n \<noteq> server_name \<longrightarrow> n \<noteq> legacy_name \<longrightarrow>
           map_of (servers config') n = map_of (servers legacy_config) n"
    by blast
  then have "files (snd (setup example_env example_cp installed_state)) example_cp
                    = Some (json_text config')
         \<and> member config' ''other'' = Some (JNum 1)
         \<and> map_of (servers config') ''unrelated'' = Some (JObj [(''command'', JStr ''other-tool'')])"
    using u k by (simp add: server_name_def legacy_name_def example_env_def)
  with ok show ?thesis
    by (auto simp: example_path example_files example_parse_legacy)
qed

subsection \<open>C3: what the merge returns\<close>




subsection \<open>C4: a malformed host config\<close>

text \<open>
  C4: if the host config file exists and its text is not valid JSON, the run returns
  failure, the file is left as it was, and no write to it is even attempted (the outcomes
  planned for writes to it are all still pending).
\<close>

theorem malformed_config_not_overwritten:
  assumes "claudeConfigPath e = Inr cp" and "files s cp = Some txt" and "parse e txt = Inl m"
  shows "\<not> fst (setup e cp s)
       \<and> files (snd (setup e cp s)) cp = Some txt
       \<and> plan (snd (setup e cp s)) (WriteFile cp) = plan s (WriteFile cp)"
proof -
  obtain ok s' where run: "setup e cp s = (ok, s')" by (cases "setup e cp s")
  from setup_existing [OF assms(1,2) run] assms(3) have "\<not> ok" and "frame e cp s s'"
    by auto
  with assms(2) show ?thesis by (simp add: run frame_def)
qed

theorem malformed_config_not_overwritten_witness:
  "claudeConfigPath example_env = Inr example_cp
   \<and> files malformed_state example_cp = Some ''{ mcpServers: oops''
   \<and> parse example_env ''{ mcpServers: oops'' = Inl ''Unexpected token in JSON''
   \<and> \<not> fst (setup example_env example_cp malformed_state)
   \<and> files (snd (setup example_env example_cp malformed_state)) example_cp
       = Some ''{ mcpServers: oops''"
proof -
  have f: "files malformed_state example_cp = Some ''{ mcpServers: oops''"
    by (simp add: malformed_state_def fresh_state_def)
  have p: "parse example_env ''{ mcpServers: oops'' = Inl ''Unexpected token in JSON''"
    unfolding example_env_def example_parse_def by code_simp
  from malformed_config_not_overwritten [OF example_path f p] show ?thesis
    by (simp add: example_path f p)
qed

subsection \<open>C5: the restart is soft-fail\<close>

text \<open>
  C5: whatever the kill and relaunch commands do, \<open>restartClaude\<close> returns normally;
  the result of the run is success exactly when the hard phases up to the persisting of
  the host config have all returned normally, so no outcome of the restart changes it;
  and when the kill command is rejected, the \<^verbatim>\<open>kill_claude_process\<close> step (the second
  step the restart adds to the tracker) ends with status \<^verbatim>\<open>no_process_found\<close>.
\<close>

theorem restart_is_soft_fail:
  "fst (restartClaude e s) = Inr ()
   \<and> fst (setup e cp s) = (fst (hard_phases e cp (isDebugMode e) (snd (setup_prologue e s))) = Inr ())
   \<and> (kill_fails e s \<longrightarrow>
        Suc (length (setupSteps s)) < length (setupSteps (snd (restartClaude e s)))
        \<and> step (setupSteps (snd (restartClaude e s)) ! Suc (length (setupSteps s))) = ''kill_claude_process''
        \<and> status (setupSteps (snd (restartClaude e s)) ! Suc (length (setupSteps s))) = ''no_process_found'')"
  using restartClaude_returns [of e s] setup_result [of e cp s] kill_recorded [of e s]
  by blast

theorem restart_is_soft_fail_witness:
  "kill_fails example_env no_process_state
   \<and> fst (restartClaude example_env no_process_state) = Inr ()
   \<and> step (setupSteps (snd (restartClaude example_env no_process_state)) ! 1) = ''kill_claude_process''
   \<and> status (setupSteps (snd (restartClaude example_env no_process_state)) ! 1) = ''no_process_found''"
proof -
  have k: "kill_fails example_env no_process_state"
    by (simp add: kill_fails_def kill_command_def actualCommand_def isWindows_def example_env_def
          next_outcome_def no_process_state_def fresh_state_def)
  have l: "length (setupSteps no_process_state) = 0"
    by (simp add: no_process_state_def fresh_state_def)
  from restart_is_soft_fail [of example_env no_process_state example_cp] k show ?thesis
    by (simp add: l)
qed

subsection \<open>C6: the merge is idempotent\<close>

text \<open>
  C6: merging into the result of a merge changes nothing: whenever \<open>merge\<close> returns a
  config, \<open>merge\<close> applied to that config with the same server entry returns it again,
  so a second run leaves the same entry under the server name.
\<close>

theorem merge_idempotent: "merge c sc = Inr c' \<Longrightarrow> merge c' sc = Inr c'"
proof (cases c)
  case (JObj kvs)
  assume "merge c sc = Inr c'"
  with JObj show ?thesis
    by (auto simp: merge_def merge_flag_JObj Let_def names_neq AList.update_conv' AList.delete_conv'
             split: json.splits if_splits)
qed (auto simp: merge_def merge_flag_def)

theorem merge_idempotent_witness:
  "merge legacy_config example_entry = Inr merged_legacy
   \<and> merge merged_legacy example_entry = Inr merged_legacy
   \<and> member (JObj (servers merged_legacy)) server_name = Some example_entry"
  using merge_idempotent [OF example_merge]
  by (simp add: example_merge merged_legacy_def servers_def member_def server_name_def)

subsection \<open>C7: loading the host config when the file is absent\<close>




subsection \<open>C8: a run in an empty home directory\<close>

text \<open>
  C8, as claimed: after a run in an empty home directory the one entry under
  \<^verbatim>\<open>mcpServers\<close> has the command and arguments of the platform's default shell invocation.
  The script stores the shell invocation under the top-level key \<^verbatim>\<open>serverConfig\<close>; the
  entry under \<^verbatim>\<open>mcpServers\<close> is the launch entry of the server: here \<^verbatim>\<open>node\<close> with the
  path of \<^verbatim>\<open>dist/index.js\<close>, not \<^verbatim>\<open>/bin/sh -c\<close>.
\<close>

theorem fresh_run_counterexample:
  "fst (setup example_env example_cp fresh_state)
   \<and> files (snd (setup example_env example_cp fresh_state)) example_cp
       = Some (json_text
           (JObj [(''serverConfig'', JObj [(''command'', JStr ''/bin/sh''), (''args'', JArr [JStr ''-c''])]),
                  (''mcpServers'',
                     JObj [(''desktop-commander'',
                            JObj [(''command'', JStr ''node''),
                                  (''args'', JArr [JStr ''/opt/dc/dist/index.js''])])])]))"
  using setup_absent_fault_free [OF example_path fresh_absent example_not_ancestor fresh_fault_free]
  by (simp add: example_merged_default example_entry_def) (simp add: example_env_def)

text \<open>
  C8, amended: starting without a host config, a run in which no operation fails
  succeeds and produces a config file that holds the platform's default shell invocation
  (\<^verbatim>\<open>cmd.exe /c\<close> on Windows, \<^verbatim>\<open>/bin/sh -c\<close> otherwise) under the top-level key
  \<^verbatim>\<open>serverConfig\<close>, and whose \<^verbatim>\<open>mcpServers\<close> has exactly one entry, \<^verbatim>\<open>desktop-commander\<close>,
  which is the server launch entry built for the run.
\<close>

theorem fresh_run_result:
  assumes "claudeConfigPath e = Inr cp" and "\<not> existsSync cp s"
    and "cp \<notin> ancestors (toolDir e)" and "fault_free s"
  shows "fst (setup e cp s)
       \<and> (\<exists>c. files (snd (setup e cp s)) cp = Some (stringify e c)
             \<and> servers c = [(''desktop-commander'', serverConfig e (isDebugMode e))]
             \<and> member c ''serverConfig'' =
                 Some (if isWindows e
                       then JObj [(''command'', JStr ''cmd.exe''), (''args'', JArr [JStr ''/c''])]
                       else JObj [(''command'', JStr ''/bin/sh''), (''args'', JArr [JStr ''-c''])]))"
proof -
  have "servers (merged_default e) = [(''desktop-commander'', serverConfig e (isDebugMode e))]"
    by (simp add: merged_default_def servers_def member_def)
  moreover have "member (merged_default e) ''serverConfig'' =
                 Some (if isWindows e
                       then JObj [(''command'', JStr ''cmd.exe''), (''args'', JArr [JStr ''/c''])]
                       else JObj [(''command'', JStr ''/bin/sh''), (''args'', JArr [JStr ''-c''])])"
    by (simp add: merged_default_def member_def)
  ultimately show ?thesis
    using setup_absent_fault_free [OF assms] by blast
qed

theorem fresh_run_result_witness:
  "claudeConfigPath example_env = Inr example_cp
   \<and> \<not> existsSync example_cp fresh_state
   \<and> example_cp \<notin> ancestors (toolDir example_env)
   \<and> fault_free fresh_state
   \<and> fst (setup example_env example_cp fresh_state)
   \<and> (\<exists>c. files (snd (setup example_env example_cp fresh_state)) example_cp = Some (json_text c)
         \<and> servers c = [(''desktop-commander'', example_entry)]
         \<and> member c ''serverConfig'' =
              Some (JObj [(''command'', JStr ''/bin/sh''), (''args'', JArr [JStr ''-c''])]))"
proof -
  have w: "\<not> isWindows example_env" by (simp add: isWindows_def example_env_def)
  have s: "stringify example_env = json_text" by (simp add: example_env_def)
  from fresh_run_result [OF example_path fresh_absent example_not_ancestor fresh_fault_free]
  show ?thesis
    by (simp add: w s example_server_entry example_path fresh_absent example_not_ancestor fresh_fault_free)
qed

subsection \<open>C9: how a fatal error is logged\<close>

text \<open>
  C9, as claimed: the message of a fatal error has the file-path fragments it contains
  redacted before it is logged. The script logs the error as it is (line 536) and never
  calls \<open>sanitizeError\<close>. Here the home directory is not writable: the message on the
  console and in the diagnostic log names the directory, where \<open>sanitizeError\<close> would
  have put its placeholder.
\<close>

theorem fatal_error_counterexample:
  "console (snd (setup example_env example_cp locked_state))
     = [(Out, [newline]), (Out, [newline]),
        (Err, ''Error updating Claude configuration: Error: EACCES: permission denied, mkdir /home/u/.claude-server-commander'')]
   \<and> files (snd (setup example_env example_cp locked_state)) (logFile example_env)
     = Some (''[2025-01-01T00:00:00.000Z] ERROR: Error updating Claude configuration: Error: EACCES: permission denied, mkdir /home/u/.claude-server-commander'' @ [newline])
   \<and> holds_path ''Error updating Claude configuration: Error: EACCES: permission denied, mkdir /home/u/.claude-server-commander''
   \<and> message (sanitizeError (ErrorObject (Error denied) None))
     = ''Error: EACCES: permission denied, mkdir [PATH]-server-commander''"
  by (intro conjI locked_console locked_log denied_holds_path denied_sanitized)

text \<open>
  C9, amended: for every fatal error, that is, whenever a hard phase throws, the run
  returns failure and the text \<^verbatim>\<open>Error updating Claude configuration: \<close> followed by the
  error's string form, unchanged, is printed to the console (on the error stream, or on
  the output stream when the log cannot be written); when the append to the diagnostic
  log succeeds, the log ends with that same text as an \<^verbatim>\<open>ERROR:\<close> line. No redaction is
  applied.
\<close>

theorem fatal_error_logged_verbatim:
  assumes "fst (hard_phases e cp (isDebugMode e) (snd (setup_prologue e s))) = Inl err"
  shows "\<not> fst (setup e cp s)
       \<and> ((Err, ''Error updating Claude configuration: '' @ error_string err)
              \<in> set (console (snd (setup e cp s)))
          \<or> (Out, ''Error updating Claude configuration: '' @ error_string err)
              \<in> set (console (snd (setup e cp s))))
       \<and> (plan (snd (hard_phases e cp (isDebugMode e) (snd (setup_prologue e s)))) (AppendFile (logFile e)) = []
            \<longrightarrow> existsSync (toolDir e) (snd (hard_phases e cp (isDebugMode e) (snd (setup_prologue e s))))
            \<longrightarrow> (\<exists>old. files (snd (setup e cp s)) (logFile e)
                   = Some (old @ logMessage e (''Error updating Claude configuration: '' @ error_string err) True)))"
proof -
  obtain i s3 where p: "setup_prologue e s = (i, s3)" by (cases "setup_prologue e s")
  obtain r s4 where h: "hard_phases e cp (isDebugMode e) s3 = (r, s4)"
    by (cases "hard_phases e cp (isDebugMode e) s3")
  from assms have r: "r = Inl err" by (simp add: p h)
  let ?msg = "''Error updating Claude configuration: '' @ error_string err"
  let ?s5 = "updateSetupStep e i ''failed'' (Some err) s4"
  note run = setup_failure [OF p h [unfolded r]]
  have c: "(Err, ?msg) \<in> set (console (logToFile e ?msg True ?s5))
         \<or> (Out, ?msg) \<in> set (console (logToFile e ?msg True ?s5))"
    using logToFile_console [of e ?msg ?s5] by auto
  have l: "plan s4 (AppendFile (logFile e)) = [] \<longrightarrow> existsSync (toolDir e) s4
           \<longrightarrow> (\<exists>old. files (logToFile e ?msg True ?s5) (logFile e) = Some (old @ logMessage e ?msg True))"
  proof (intro impI)
    assume "plan s4 (AppendFile (logFile e)) = []" "existsSync (toolDir e) s4"
    then have "plan ?s5 (AppendFile (logFile e)) = []" "existsSync (toolDir e) ?s5 \<or> plan ?s5 (Mkdir (toolDir e)) = []"
      by (auto simp: updateSetupStep_def existsSync_def)
    from logToFile_appends [OF this] show "\<exists>old. files (logToFile e ?msg True ?s5) (logFile e) = Some (old @ logMessage e ?msg True)"
      by blast
  qed
  show ?thesis
    unfolding run p h snd_conv fst_conv using c l by simp
qed

theorem fatal_error_logged_verbatim_witness:
  "fst (hard_phases example_env example_cp (isDebugMode example_env)
          (snd (setup_prologue example_env locked_state))) = Inl (Error denied)
   \<and> \<not> fst (setup example_env example_cp locked_state)
   \<and> ((Err, ''Error updating Claude configuration: Error: EACCES: permission denied, mkdir /home/u/.claude-server-commander'')
          \<in> set (console (snd (setup example_env example_cp locked_state)))
      \<or> (Out, ''Error updating Claude configuration: Error: EACCES: permission denied, mkdir /home/u/.claude-server-commander'')
          \<in> set (console (snd (setup example_env example_cp locked_state))))"
  using fatal_error_logged_verbatim [OF locked_failure]
  by (simp only: locked_failure denied_string) simp

subsection \<open>C10: the tool's own config file\<close>



end
